theory Spec2Isabelle
  imports Complex_Main
begin

section \<open>JavaScript values, strings and promises\<close>

text \<open>
  What awaiting a promise that settles gives: its value, or the error it was rejected with.
  The promises of the Redis client, which may never settle, have a type of their own below.
\<close>

datatype 'a outcome = Resolved 'a | Rejected string

text \<open>
  JavaScript values as a JSON body delivers them. Numbers are modelled as rationals: the finite
  values; \<open>NaN\<close> and the infinities do not occur in them.
\<close>

datatype jsval =
    Undefined
  | Null
  | Boolean bool
  | Number rat
  | String string
  | Array "jsval list"
  | Object "(string \<times> jsval) list"

text \<open>ToBoolean: what \<open>!v\<close> and \<open>v || d\<close> test.\<close>

fun truthy :: "jsval \<Rightarrow> bool" where
  "truthy Undefined = False"
| "truthy Null = False"
| "truthy (Boolean b) = b"
| "truthy (Number n) = (n \<noteq> 0)"
| "truthy (String s) = (s \<noteq> [])"
| "truthy (Array _) = True"
| "truthy (Object _) = True"

text \<open>
  ToNumber, as the comparison \<open>v <= 0\<close> applies it; \<open>None\<close> is \<open>NaN\<close>. The conversion of strings,
  arrays and objects is the runtime's and is taken as the parameter \<open>coerce\<close>.
\<close>

fun toNumber :: "(jsval \<Rightarrow> rat option) \<Rightarrow> jsval \<Rightarrow> rat option" where
  "toNumber coerce Undefined = None"
| "toNumber coerce Null = Some 0"
| "toNumber coerce (Boolean b) = Some (if b then 1 else 0)"
| "toNumber coerce (Number n) = Some n"
| "toNumber coerce v = coerce v"

text \<open>
  \<open>parseInt(string)\<close> with no radix, on the characters of ASCII: leading white space is skipped,
  a sign is read, a \<open>0x\<close> or \<open>0X\<close> prefix selects radix 16, and the longest prefix of digits of
  the radix is the value; \<open>None\<close> is \<open>NaN\<close> (no digit). The result is the mathematical integer;
  for values beyond \<open>2^53\<close> JavaScript rounds it, which no comparison below depends on.
\<close>

definition isStrWhiteSpace :: "char \<Rightarrow> bool" where
  "isStrWhiteSpace c = (let n = (of_char c :: nat) in (9 \<le> n \<and> n \<le> 13) \<or> n = 32)"

definition digitValue :: "nat \<Rightarrow> char \<Rightarrow> nat option" where
  "digitValue radix c =
     (let n = (of_char c :: nat);
          v = (if 48 \<le> n \<and> n \<le> 57 then Some (n - 48)
               else if 97 \<le> n \<and> n \<le> 122 then Some (n - 87)
               else if 65 \<le> n \<and> n \<le> 90 then Some (n - 55)
               else None)
      in case v of Some d \<Rightarrow> if d < radix then Some d else None | None \<Rightarrow> None)"

definition digitsValue :: "nat \<Rightarrow> string \<Rightarrow> nat" where
  "digitsValue radix ds = foldl (\<lambda>acc c. acc * radix + (case digitValue radix c of Some d \<Rightarrow> d | None \<Rightarrow> 0)) 0 ds"

definition parseInt :: "string \<Rightarrow> int option" where
  "parseInt inputString =
     (let s = dropWhile isStrWhiteSpace inputString;
          (sign, s) = (case s of
                         c # rest \<Rightarrow> if c = CHR ''-'' then (-1, rest)
                                    else if c = CHR ''+'' then (1, rest) else (1, s)
                       | [] \<Rightarrow> (1, s));
          (radix, s) = (case s of
                          z # x # rest \<Rightarrow>
                            if z = CHR ''0'' \<and> (x = CHR ''x'' \<or> x = CHR ''X'') then (16, rest) else (10, s)
                        | _ \<Rightarrow> (10, s));
          z = takeWhile (\<lambda>c. digitValue radix c \<noteq> None) s
      in if z = [] then None else Some (sign * int (digitsValue radix z)))"

text \<open>
  Strings are lists of 8-bit characters, and the string functions below are JavaScript's on
  the characters of ASCII: \<open>toLowerCase\<close> and \<open>toUpperCase\<close> map the letters \<open>A-Z\<close> and \<open>a-z\<close>
  and leave every other character alone, and white space is the ASCII white space of
  \<open>isStrWhiteSpace\<close>. Letters and spaces beyond ASCII are outside the model.
\<close>

definition toLowerCaseChar :: "char \<Rightarrow> char" where
  "toLowerCaseChar c =
     (let n = (of_char c :: nat) in if 65 \<le> n \<and> n \<le> 90 then char_of (n + 32) else c)"

definition toUpperCaseChar :: "char \<Rightarrow> char" where
  "toUpperCaseChar c =
     (let n = (of_char c :: nat) in if 97 \<le> n \<and> n \<le> 122 then char_of (n - 32) else c)"

definition toLowerCase :: "string \<Rightarrow> string" where
  "toLowerCase s = map toLowerCaseChar s"

definition toUpperCase :: "string \<Rightarrow> string" where
  "toUpperCase s = map toUpperCaseChar s"


text \<open>\<open>s.trim()\<close>\<close>

definition trim :: "string \<Rightarrow> string" where
  "trim s = rev (dropWhile isStrWhiteSpace (rev (dropWhile isStrWhiteSpace s)))"

text \<open>
  \<open>s.split(/\s+/)\<close>: the pieces between the maximal runs of white space; a string that begins
  or ends with white space has an empty first or last piece, and the empty string has the one
  piece \<open>''\<close>.
\<close>

function splitWhiteSpace :: "string \<Rightarrow> string list" where
  "splitWhiteSpace s =
     (let piece = takeWhile (\<lambda>c. \<not> isStrWhiteSpace c) s;
          rest = dropWhile (\<lambda>c. \<not> isStrWhiteSpace c) s
      in if rest = [] then [piece]
         else piece # splitWhiteSpace (dropWhile isStrWhiteSpace rest))"
  by pat_completeness auto
termination
proof (relation "measure length")
  show "wf (measure length)" by simp
next
  fix s :: string and piece rest
  assume eq: "rest = dropWhile (\<lambda>c. \<not> isStrWhiteSpace c) s" and ne: "rest \<noteq> []"
  from ne obtain c cs where rc: "rest = c # cs"
    by (auto simp: neq_Nil_conv)
  have "isStrWhiteSpace (hd (dropWhile (\<lambda>c. \<not> isStrWhiteSpace c) s))"
    using hd_dropWhile [of "\<lambda>c. \<not> isStrWhiteSpace c" s] eq ne by blast
  then have ws: "isStrWhiteSpace c"
    using eq rc by (metis list.sel(1))
  have "length (dropWhile isStrWhiteSpace (c # cs)) \<le> length cs"
    using ws length_dropWhile_le [of isStrWhiteSpace cs] by simp
  moreover have "length (c # cs) \<le> length s"
    using length_dropWhile_le [of "\<lambda>c. \<not> isStrWhiteSpace c" s] eq rc by metis
  ultimately show "(dropWhile isStrWhiteSpace rest, s) \<in> measure length"
    using rc by simp
qed

declare splitWhiteSpace.simps [simp del]

text \<open>\<open>pieces.join(sep)\<close>\<close>

fun join :: "string \<Rightarrow> string list \<Rightarrow> string" where
  "join sep [] = []"
| "join sep [w] = w"
| "join sep (w # ws) = w @ sep @ join sep ws"



text \<open>
  Template literals print a number in decimal: \<open>`${n}`\<close>.
\<close>

fun showNat :: "nat \<Rightarrow> string" where
  "showNat n =
     (if n < 10 then [char_of (48 + n)]
      else showNat (n div 10) @ [char_of (48 + n mod 10)])"

declare showNat.simps [simp del]

definition showInt :: "int \<Rightarrow> string" where
  "showInt n = (if n < 0 then CHR ''-'' # showNat (nat (- n)) else showNat (nat n))"

text \<open>
  A \<open>Date\<close> holds a time value: the milliseconds since the epoch, at most \<open>8.64e15\<close> in absolute
  value, or \<open>NaN\<close> (an invalid date), which is \<open>None\<close> here. \<open>new Date(string)\<close> parses with the
  runtime's \<open>Date.parse\<close>, taken as a parameter. \<open>d.setDate(d.getDate() - n)\<close> moves a date back
  by \<open>n\<close> calendar days of local time; the server's time zone is taken to have a constant
  offset, as UTC has, so that a day is 86 400 000 ms.
\<close>

definition msPerDay :: int where
  "msPerDay = 86400000"

definition maxTimeValue :: int where
  "maxTimeValue = 8640000000000000"

definition timeClip :: "int \<Rightarrow> int option" where
  "timeClip t = (if \<bar>t\<bar> \<le> maxTimeValue then Some t else None)"

definition newDate :: "(string \<Rightarrow> int option) \<Rightarrow> string \<Rightarrow> int option" where
  "newDate dateParse s = (case dateParse s of None \<Rightarrow> None | Some t \<Rightarrow> timeClip t)"

definition setDateBack :: "int \<Rightarrow> int \<Rightarrow> int option" where
  "setDateBack t days = timeClip (t - days * msPerDay)"

section \<open>Validation utilities (backend/src/utils/validation.ts)\<close>

text \<open>
  The validators return \<open>{ valid: boolean; error?: string }\<close>: either \<open>{ valid: true }\<close> or
  \<open>{ valid: false, error }\<close>.
\<close>

datatype validation = Valid | Invalid string

text \<open>
  \<open>new Set(xs)\<close> followed by spreading: the distinct elements of \<open>xs\<close> in the order of their
  first occurrence. Its \<open>size\<close> is the length of that list.
\<close>

definition newSet :: "'a list \<Rightarrow> 'a list" where
  "newSet xs = rev (remdups (rev xs))"

definition validateMinimumDataDays :: "string \<Rightarrow> string list \<Rightarrow> validation" where
  "validateMinimumDataDays accountId dates =
     (if length dates < 60 then Invalid ''Minimum 60 days of data required for attribution''
      else let uniqueDates = newSet dates in
        if length uniqueDates < 60 then Invalid ''Minimum 60 unique days of data required''
        else Valid)"

text \<open>
  The check made at CSV upload (routes/uploads.ts, lines 116-129), run only when at least one
  row survived validation. \<open>existingDays\<close> is the \<open>COUNT(DISTINCT date)\<close> of the account's
  stored rows; the handler pads the uploaded dates with that many empty strings, passes the list
  through a \<open>Set\<close> and drops the empty strings again with \<open>filter(Boolean)\<close>. The result is
  the list of messages pushed onto \<open>errors\<close>.
\<close>

definition minimumDataDaysWarning :: "string \<Rightarrow> nat \<Rightarrow> nat \<Rightarrow> string list \<Rightarrow> string list" where
  "minimumDataDaysWarning accountId metricsLength existingDays dates =
     (if metricsLength > 0 then
        let allDates = newSet (dates @ replicate existingDays '''');
            minDaysValidation = validateMinimumDataDays accountId (filter (\<lambda>d. d \<noteq> '''') allDates)
        in (case minDaysValidation of
              Invalid err \<Rightarrow>
                if existingDays < 60
                then [''Warning: '' @ err @ ''. Attribution models require at least 60 days of data.'']
                else []
            | Valid \<Rightarrow> [])
      else [])"

text \<open>
  \<open>validateDateRange(date, maxDaysBack = 730)\<close>. The function reads the clock twice, for \<open>now\<close>
  and for \<open>maxDate\<close>; \<open>clock\<close> is the pair of the two readings. A comparison with an invalid
  \<open>maxDate\<close> is false.
\<close>

definition validateDateRange ::
  "(string \<Rightarrow> int option) \<Rightarrow> int \<times> int \<Rightarrow> string \<Rightarrow> int \<Rightarrow> validation" where
  "validateDateRange dateParse clock date maxDaysBack =
     (let dateObj = newDate dateParse date;
          now = fst clock;
          maxDate = setDateBack (snd clock) maxDaysBack
      in case dateObj of
           None \<Rightarrow> Invalid ''Invalid date format''
         | Some t \<Rightarrow>
             if t > now then Invalid ''Date cannot be in the future''
             else if (case maxDate of Some m \<Rightarrow> t < m | None \<Rightarrow> False)
               then Invalid (''Date must be within last '' @ showInt maxDaysBack @ '' days'')
             else Valid)"

text \<open>The call with the default \<open>maxDaysBack = 730\<close>.\<close>

definition validateDateRangeDefault ::
  "(string \<Rightarrow> int option) \<Rightarrow> int \<times> int \<Rightarrow> string \<Rightarrow> validation" where
  "validateDateRangeDefault dateParse clock date = validateDateRange dateParse clock date 730"

section \<open>Channel normalization (utils/channelNormalization.ts)\<close>

definition CHANNEL_MAP :: "(string \<times> string) list" where
  "CHANNEL_MAP =
     [(''fb ads'', ''Facebook Ads''),
      (''facebook ads'', ''Facebook Ads''),
      (''fb'', ''Facebook Ads''),
      (''google ads'', ''Google Ads''),
      (''google'', ''Google Ads''),
      (''gads'', ''Google Ads''),
      (''linkedin'', ''LinkedIn Ads''),
      (''linkedin ads'', ''LinkedIn Ads''),
      (''twitter'', ''Twitter Ads''),
      (''twitter ads'', ''Twitter Ads''),
      (''x'', ''Twitter Ads''),
      (''instagram'', ''Instagram Ads''),
      (''instagram ads'', ''Instagram Ads''),
      (''tiktok'', ''TikTok Ads''),
      (''tiktok ads'', ''TikTok Ads''),
      (''snapchat'', ''Snapchat Ads''),
      (''snapchat ads'', ''Snapchat Ads''),
      (''pinterest'', ''Pinterest Ads''),
      (''pinterest ads'', ''Pinterest Ads''),
      (''bing'', ''Bing Ads''),
      (''bing ads'', ''Bing Ads''),
      (''email'', ''Email Marketing''),
      (''email marketing'', ''Email Marketing''),
      (''seo'', ''SEO''),
      (''organic'', ''Organic''),
      (''direct'', ''Direct''),
      (''referral'', ''Referral'')]"

text \<open>
  \<open>CHANNEL_MAP\<close> is an object literal, so \<open>CHANNEL_MAP[key]\<close> also finds the members it inherits
  from \<open>Object.prototype\<close>. Those are functions and objects, not strings, and all are truthy.
\<close>

definition objectPrototypeKeys :: "string list" where
  "objectPrototypeKeys =
     [''constructor'', ''hasOwnProperty'', ''isPrototypeOf'', ''propertyIsEnumerable'',
      ''toLocaleString'', ''toString'', ''valueOf'', ''__proto__'', ''__defineGetter__'',
      ''__defineSetter__'', ''__lookupGetter__'', ''__lookupSetter__'']"

text \<open>
  What \<open>normalizeChannel\<close> returns: a channel name, or the member of \<open>Object.prototype\<close> found
  under the given key.
\<close>

datatype channel_name = Name string | PrototypeMember string

definition lookupChannel :: "string \<Rightarrow> channel_name option" where
  "lookupChannel key =
     (case map_of CHANNEL_MAP key of
        Some v \<Rightarrow> Some (Name v)
      | None \<Rightarrow> if key \<in> set objectPrototypeKeys then Some (PrototypeMember key) else None)"

text \<open>\<open>word.charAt(0).toUpperCase() + word.slice(1).toLowerCase()\<close>\<close>

definition capitalize :: "string \<Rightarrow> string" where
  "capitalize word = toUpperCase (take 1 word) @ toLowerCase (drop 1 word)"

text \<open>The default: \<open>rawChannel.split(/\s+/).map(capitalize).join(' ')\<close>.\<close>

definition titleCase :: "string \<Rightarrow> string" where
  "titleCase rawChannel = join '' '' (map capitalize (splitWhiteSpace rawChannel))"

text \<open>
  The table \<open>channel_normalization\<close> as rows \<open>(account_id, raw_name, normalized_name)\<close>, and
  whether the query on it throws.
\<close>

record channel_db =
  channel_normalization :: "(string \<times> string \<times> string) list"
  channelQueryFailure :: "string option"

definition selectNormalizedName :: "channel_db \<Rightarrow> string \<Rightarrow> string \<Rightarrow> string list" where
  "selectNormalizedName db accountId rawName =
     map (\<lambda>(a, r, n). n)
       (filter (\<lambda>(a, r, n). a = accountId \<and> r = rawName) (channel_normalization db))"

definition normalizeChannel :: "channel_db \<Rightarrow> string \<Rightarrow> string \<Rightarrow> channel_name outcome" where
  "normalizeChannel db accountId rawChannel =
     (let normalized = toLowerCase (trim rawChannel)
      in case channelQueryFailure db of
           Some err \<Rightarrow> Rejected err
         | None \<Rightarrow>
             (case selectNormalizedName db accountId normalized of
                n # _ \<Rightarrow> Resolved (Name n)
              | [] \<Rightarrow>
                  (case lookupChannel normalized of
                     Some v \<Rightarrow> Resolved v
                   | None \<Rightarrow> Resolved (Name (titleCase rawChannel)))))"

text \<open>No account-specific mapping: the table has no row, and the query succeeds.\<close>

definition noAccountMapping :: channel_db where
  "noAccountMapping = \<lparr>channel_normalization = [], channelQueryFailure = None\<rparr>"

section \<open>Metrics store (models/MarketingMetrics.ts, migrations/001_initial_schema.sql)\<close>

text \<open>
  \<open>MetricInput\<close>, the rows handed to \<open>bulkInsert\<close>; its fields carry the prefix \<open>mi_\<close>.
  JavaScript numbers are rationals here, an optional field is an \<open>option\<close>. The type of the
  channel is a parameter: \<open>bulkInsert\<close> takes strings, and the upload handler fills the field
  with whatever \<open>normalizeChannel\<close> returned.
\<close>

record 'c MetricInput =
  mi_date :: string
  mi_channel :: 'c
  mi_spend :: rat
  mi_revenue :: "rat option"
  mi_impressions :: "rat option"
  mi_clicks :: "rat option"
  mi_conversions :: "rat option"
  mi_new_customers :: "rat option"
  mi_returning_customers :: "rat option"

text \<open>
  A row of \<open>marketing_daily_metrics\<close>, with the column types of the migration: \<open>DATE\<close> is the
  type parameter \<open>'d\<close>, \<open>NUMERIC(12,2)\<close> a rational with two decimals, \<open>INTEGER\<close> an integer,
  a nullable column an \<open>option\<close>. Fields carry the prefix \<open>mm_\<close>.
\<close>

record 'd MarketingMetric =
  mm_id :: string
  mm_account_id :: string
  mm_date :: 'd
  mm_channel :: string
  mm_spend :: rat
  mm_revenue :: "rat option"
  mm_impressions :: "int option"
  mm_clicks :: "int option"
  mm_conversions :: "int option"
  mm_new_customers :: "int option"
  mm_returning_customers :: "int option"
  mm_created_at :: int
  mm_updated_at :: int

text \<open>
  What the statement needs from the database server besides the table: the cast of a text
  parameter to \<open>DATE\<close> (\<open>None\<close>: invalid input), the ids of the rows of \<open>accounts\<close> (the target
  of the foreign key, ids in canonical text), \<open>NOW()\<close>, and the UUID that
  \<open>gen_random_uuid()\<close> draws for the \<open>i\<close>-th statement of a call.
\<close>

record 'd postgres =
  toDate :: "string \<Rightarrow> 'd option"
  accounts :: "string list"
  pgNow :: int
  gen_random_uuid :: "nat \<Rightarrow> string"

datatype pg_error =
    InvalidDate
  | ForeignKeyViolation
  | NumericFieldOverflow
  | InvalidInteger
  | CheckViolation string
  | UniqueViolation string

text \<open>\<open>metric.revenue || null\<close>: an absent value and 0 both become \<open>NULL\<close>.\<close>

definition orNull :: "rat option \<Rightarrow> rat option" where
  "orNull v = (case v of None \<Rightarrow> None | Some x \<Rightarrow> if x = 0 then None else Some x)"

text \<open>
  Coercion to \<open>NUMERIC(12,2)\<close>: rounding to two decimals, ties away from zero; a rounded value
  of \<open>10^10\<close> or more in absolute value is a numeric field overflow.
\<close>

definition roundHalfAway :: "rat \<Rightarrow> int" where
  "roundHalfAway y = (if y \<ge> 0 then \<lfloor>y + 1 / 2\<rfloor> else - \<lfloor>- y + 1 / 2\<rfloor>)"

definition numeric_12_2 :: "rat \<Rightarrow> pg_error + rat" where
  "numeric_12_2 x =
     (let cents = roundHalfAway (x * 100)
      in if \<bar>cents\<bar> \<ge> 10 ^ 12 then Inl NumericFieldOverflow else Inr (of_int cents / 100))"

text \<open>
  Input of an \<open>INTEGER\<close> parameter: the driver sends the number as text, and text that is not
  an integer of 32 bits is an error.
\<close>

definition int4 :: "rat \<Rightarrow> pg_error + int" where
  "int4 x =
     (if x = of_int \<lfloor>x\<rfloor> \<and> - (2 ^ 31) \<le> \<lfloor>x\<rfloor> \<and> \<lfloor>x\<rfloor> < 2 ^ 31 then Inr \<lfloor>x\<rfloor>
      else Inl InvalidInteger)"

definition numericOpt :: "rat option \<Rightarrow> pg_error + rat option" where
  "numericOpt v =
     (case v of
        None \<Rightarrow> Inr None
      | Some x \<Rightarrow> (case numeric_12_2 x of Inl e \<Rightarrow> Inl e | Inr y \<Rightarrow> Inr (Some y)))"

definition int4Opt :: "rat option \<Rightarrow> pg_error + int option" where
  "int4Opt v =
     (case v of
        None \<Rightarrow> Inr None
      | Some x \<Rightarrow> (case int4 x of Inl e \<Rightarrow> Inl e | Inr y \<Rightarrow> Inr (Some y)))"

text \<open>A \<open>CHECK (column >= 0)\<close> constraint passes on \<open>NULL\<close>.\<close>

definition nonNegative :: "'a::{zero,ord} option \<Rightarrow> bool" where
  "nonNegative v = (case v of None \<Rightarrow> True | Some x \<Rightarrow> x \<ge> 0)"

text \<open>
  The row proposed by
  \<open>INSERT INTO marketing_daily_metrics (account_id, date, channel, spend, revenue, impressions,
     clicks, conversions, new_customers, returning_customers) VALUES ($1, ..., $10)\<close>
  for the parameters \<open>bulkInsert\<close> binds: the parameters are converted to the column types,
  the defaults fill \<open>id\<close>, \<open>created_at\<close> and \<open>updated_at\<close>, and the \<open>CHECK\<close> constraints and the
  foreign key are tested. The first failure is the statement's error.
\<close>

definition proposedRow ::
  "'d postgres \<Rightarrow> nat \<Rightarrow> string \<Rightarrow> string MetricInput \<Rightarrow> pg_error + 'd MarketingMetric" where
  "proposedRow pg i accountId metric =
     (case toDate pg (mi_date metric) of
        None \<Rightarrow> Inl InvalidDate
      | Some d \<Rightarrow>
     (case numeric_12_2 (mi_spend metric) of Inl e \<Rightarrow> Inl e | Inr spend \<Rightarrow>
     (case numericOpt (orNull (mi_revenue metric)) of Inl e \<Rightarrow> Inl e | Inr revenue \<Rightarrow>
     (case int4Opt (orNull (mi_impressions metric)) of Inl e \<Rightarrow> Inl e | Inr impressions \<Rightarrow>
     (case int4Opt (orNull (mi_clicks metric)) of Inl e \<Rightarrow> Inl e | Inr clicks \<Rightarrow>
     (case int4Opt (orNull (mi_conversions metric)) of Inl e \<Rightarrow> Inl e | Inr conversions \<Rightarrow>
     (case int4Opt (orNull (mi_new_customers metric)) of Inl e \<Rightarrow> Inl e | Inr new_customers \<Rightarrow>
     (case int4Opt (orNull (mi_returning_customers metric)) of Inl e \<Rightarrow> Inl e
      | Inr returning_customers \<Rightarrow>
        if \<not> spend \<ge> 0 then Inl (CheckViolation ''spend'')
        else if \<not> nonNegative revenue then Inl (CheckViolation ''revenue'')
        else if \<not> nonNegative impressions then Inl (CheckViolation ''impressions'')
        else if \<not> nonNegative clicks then Inl (CheckViolation ''clicks'')
        else if \<not> nonNegative conversions then Inl (CheckViolation ''conversions'')
        else if \<not> nonNegative new_customers then Inl (CheckViolation ''new_customers'')
        else if \<not> nonNegative returning_customers
          then Inl (CheckViolation ''returning_customers'')
        else if accountId \<notin> set (accounts pg) then Inl ForeignKeyViolation
        else Inr \<lparr>mm_id = gen_random_uuid pg i, mm_account_id = accountId, mm_date = d,
                  mm_channel = mi_channel metric, mm_spend = spend, mm_revenue = revenue,
                  mm_impressions = impressions, mm_clicks = clicks,
                  mm_conversions = conversions, mm_new_customers = new_customers,
                  mm_returning_customers = returning_customers,
                  mm_created_at = pgNow pg, mm_updated_at = pgNow pg\<rparr>))))))))"

text \<open>The columns of \<open>UNIQUE(account_id, date, channel)\<close>.\<close>

definition uniqueKey :: "'d MarketingMetric \<Rightarrow> string \<times> 'd \<times> string" where
  "uniqueKey r = (mm_account_id r, mm_date r, mm_channel r)"

text \<open>
  \<open>DO UPDATE SET spend = EXCLUDED.spend, ..., returning_customers = EXCLUDED.returning_customers,
     updated_at = NOW()\<close>: the existing row keeps its \<open>id\<close>, its key and \<open>created_at\<close>.
\<close>

definition doUpdate :: "'d postgres \<Rightarrow> 'd MarketingMetric \<Rightarrow> 'd MarketingMetric \<Rightarrow> 'd MarketingMetric" where
  "doUpdate pg excluded r =
     r\<lparr>mm_spend := mm_spend excluded, mm_revenue := mm_revenue excluded,
       mm_impressions := mm_impressions excluded, mm_clicks := mm_clicks excluded,
       mm_conversions := mm_conversions excluded, mm_new_customers := mm_new_customers excluded,
       mm_returning_customers := mm_returning_customers excluded, mm_updated_at := pgNow pg\<rparr>"

text \<open>
  The statement on a table: on a conflict on the unique key the conflicting row is updated,
  otherwise the proposed row is appended (its fresh \<open>id\<close> must not collide with the primary
  key of a stored row).
\<close>

definition insertMetric ::
  "'d postgres \<Rightarrow> nat \<Rightarrow> 'd MarketingMetric list \<Rightarrow> string \<Rightarrow> string MetricInput \<Rightarrow>
     pg_error + 'd MarketingMetric list" where
  "insertMetric pg i rows accountId metric =
     (case proposedRow pg i accountId metric of
        Inl e \<Rightarrow> Inl e
      | Inr new \<Rightarrow>
          if uniqueKey new \<in> set (map uniqueKey rows)
          then Inr (map (\<lambda>r. if uniqueKey r = uniqueKey new then doUpdate pg new r else r) rows)
          else if mm_id new \<in> set (map mm_id rows) then Inl (UniqueViolation ''id'')
          else Inr (rows @ [new]))"

text \<open>
  A client connection: the committed table, and inside a transaction the working copy that
  the statements of the transaction read and write.
\<close>

record 'd connection =
  committed :: "'d MarketingMetric list"
  transaction :: "'d MarketingMetric list option"

definition BEGIN :: "'d connection \<Rightarrow> 'd connection" where
  "BEGIN c = (case transaction c of None \<Rightarrow> c\<lparr>transaction := Some (committed c)\<rparr> | Some _ \<Rightarrow> c)"

definition COMMIT :: "'d connection \<Rightarrow> 'd connection" where
  "COMMIT c =
     (case transaction c of None \<Rightarrow> c | Some w \<Rightarrow> \<lparr>committed = w, transaction = None\<rparr>)"

definition ROLLBACK :: "'d connection \<Rightarrow> 'd connection" where
  "ROLLBACK c = c\<lparr>transaction := None\<rparr>"

text \<open>
  \<open>client.query(INSERT ...)\<close>: inside a transaction the statement works on the working copy;
  outside one it commits by itself. A failed statement changes nothing.
\<close>

definition queryInsert ::
  "'d postgres \<Rightarrow> nat \<Rightarrow> 'd connection \<Rightarrow> string \<Rightarrow> string MetricInput \<Rightarrow> pg_error + 'd connection" where
  "queryInsert pg i c accountId metric =
     (case transaction c of
        Some w \<Rightarrow>
          (case insertMetric pg i w accountId metric of
             Inl e \<Rightarrow> Inl e
           | Inr w' \<Rightarrow> Inr (c\<lparr>transaction := Some w'\<rparr>))
      | None \<Rightarrow>
          (case insertMetric pg i (committed c) accountId metric of
             Inl e \<Rightarrow> Inl e
           | Inr t' \<Rightarrow> Inr (c\<lparr>committed := t'\<rparr>)))"

text \<open>
  The loop \<open>for (const metric of metrics) await client.query(...)\<close>: the first rejected query
  leaves the loop with its error and the connection as it then is.
\<close>

fun insertLoop ::
  "'d postgres \<Rightarrow> nat \<Rightarrow> 'd connection \<Rightarrow> string \<Rightarrow> string MetricInput list \<Rightarrow>
     (pg_error \<times> 'd connection) + 'd connection" where
  "insertLoop pg i c accountId [] = Inr c"
| "insertLoop pg i c accountId (metric # metrics) =
     (case queryInsert pg i c accountId metric of
        Inl e \<Rightarrow> Inl (e, c)
      | Inr c' \<Rightarrow> insertLoop pg (Suc i) c' accountId metrics)"

text \<open>
  \<open>MarketingMetricsModel.bulkInsert\<close> on a table: a client is taken from the pool (no
  transaction open), \<open>BEGIN\<close>, the loop, then \<open>COMMIT\<close>; in the \<open>catch\<close>, \<open>ROLLBACK\<close> and the
  error is thrown again. The result is what the promise gives and the table afterwards.
\<close>

definition bulkInsert ::
  "'d postgres \<Rightarrow> 'd MarketingMetric list \<Rightarrow> string \<Rightarrow> string MetricInput list \<Rightarrow>
     (pg_error + unit) \<times> 'd MarketingMetric list" where
  "bulkInsert pg table accountId metrics =
     (let client = BEGIN \<lparr>committed = table, transaction = None\<rparr>
      in case insertLoop pg 0 client accountId metrics of
           Inr client' \<Rightarrow> (Inr (), committed (COMMIT client'))
         | Inl (err, client') \<Rightarrow> (Inl err, committed (ROLLBACK client')))"

text \<open>
  The values that a call binds to the columns of the conflict target
  \<open>(account_id, date, channel)\<close> for one metric: \<open>$1\<close>, \<open>$2\<close> cast to \<open>DATE\<close> and \<open>$3\<close>
  (\<open>None\<close> when the date is not one). \<open>metricsUnder\<close> abbreviates the metrics of a call that are
  bound to a given key, in the order of the call.
\<close>

definition metricKey ::
  "'d postgres \<Rightarrow> string \<Rightarrow> string MetricInput \<Rightarrow> (string \<times> 'd \<times> string) option" where
  "metricKey pg accountId metric =
     map_option (\<lambda>d. (accountId, d, mi_channel metric)) (toDate pg (mi_date metric))"

abbreviation metricsUnder ::
  "'d postgres \<Rightarrow> string \<Rightarrow> string MetricInput list \<Rightarrow> string \<times> 'd \<times> string \<Rightarrow>
     string MetricInput list" where
  "metricsUnder pg accountId metrics k \<equiv>
     filter (\<lambda>metric. metricKey pg accountId metric = Some k) metrics"

section \<open>CSV upload (routes/uploads.ts)\<close>

datatype tier = Free | Premium

text \<open>
  One pass of the loop over the parsed records, for the record at index \<open>i\<close>. \<open>schema\<close> is
  \<open>csvRowSchema.parse\<close>: the parsed row, or the text the handler prints for the \<open>ZodError\<close>.
  The result is the metric pushed onto \<open>metrics\<close>, or the message pushed onto \<open>errors\<close>; every
  \<open>catch\<close> and the \<open>continue\<close> of the source end in the latter.
\<close>

definition rowMessage :: "nat \<Rightarrow> string \<Rightarrow> string" where
  "rowMessage i message = ''Row '' @ showNat (i + 2) @ '': '' @ message"

definition uploadRow ::
  "('r \<Rightarrow> string + string MetricInput) \<Rightarrow> channel_db \<Rightarrow> (string \<Rightarrow> int option) \<Rightarrow>
     (nat \<Rightarrow> int \<times> int) \<Rightarrow> string \<Rightarrow> tier option \<Rightarrow> nat \<Rightarrow> 'r \<Rightarrow>
     string + channel_name MetricInput" where
  "uploadRow schema db dateParse clock accountId tier i record =
     (case schema record of
        Inl issues \<Rightarrow> Inl (rowMessage i issues)
      | Inr row \<Rightarrow>
          (case normalizeChannel db accountId (mi_channel row) of
             Rejected err \<Rightarrow> Inl (rowMessage i err)
           | Resolved normalizedChannel \<Rightarrow>
               let maxDaysBack = (if tier = Some Free then 730 else 3650);
                   dateValidation = validateDateRange dateParse (clock i) (mi_date row) maxDaysBack
               in (case dateValidation of
                     Invalid err \<Rightarrow> Inl (rowMessage i err)
                   | Valid \<Rightarrow>
                       Inr \<lparr>mi_date = mi_date row, mi_channel = normalizedChannel,
                            mi_spend = mi_spend row, mi_revenue = mi_revenue row,
                            mi_impressions = mi_impressions row, mi_clicks = mi_clicks row,
                            mi_conversions = mi_conversions row,
                            mi_new_customers = mi_new_customers row,
                            mi_returning_customers = mi_returning_customers row\<rparr>)))"

text \<open>
  The loop \<open>for (let i = 0; i < records.length; i++)\<close> with its three arrays \<open>metrics\<close>,
  \<open>errors\<close> and \<open>dates\<close>; \<open>step\<close> is the body.
\<close>

fun uploadLoop ::
  "(nat \<Rightarrow> 'r \<Rightarrow> string + 'c MetricInput) \<Rightarrow> nat \<Rightarrow> 'r list \<Rightarrow>
     'c MetricInput list \<times> string list \<times> string list \<Rightarrow>
     'c MetricInput list \<times> string list \<times> string list" where
  "uploadLoop step i [] (metrics, errors, dates) = (metrics, errors, dates)"
| "uploadLoop step i (record # records) (metrics, errors, dates) =
     (case step i record of
        Inl message \<Rightarrow> uploadLoop step (Suc i) records (metrics, errors @ [message], dates)
      | Inr metric \<Rightarrow>
          uploadLoop step (Suc i) records (metrics @ [metric], errors, dates @ [mi_date metric]))"

text \<open>
  The validation part of \<open>POST /api/v1/uploads/csv\<close>, from the parsed records to the decision
  taken before anything is stored: the loop, the warning about the minimum of 60 days, and
  the rejection with status 400 when there are errors and no row was accepted. Otherwise the
  handler goes on to store the accepted rows and answers with the errors it collected.
\<close>

datatype 'c upload_validation =
    ValidationFailed "string list"
  | Accepted "'c MetricInput list" "string list"

definition validateUpload ::
  "('r \<Rightarrow> string + string MetricInput) \<Rightarrow> channel_db \<Rightarrow> (string \<Rightarrow> int option) \<Rightarrow>
     (nat \<Rightarrow> int \<times> int) \<Rightarrow> nat \<Rightarrow> string \<Rightarrow> tier option \<Rightarrow> 'r list \<Rightarrow>
     channel_name upload_validation" where
  "validateUpload schema db dateParse clock existingDays accountId tier records =
     (case uploadLoop (uploadRow schema db dateParse clock accountId tier) 0 records ([], [], []) of
        (metrics, errors, dates) \<Rightarrow>
          let errors = errors @ minimumDataDaysWarning accountId (length metrics) existingDays dates
          in if length errors > 0 \<and> length metrics = 0 then ValidationFailed errors
             else Accepted metrics errors)"

section \<open>HTTP handlers: shared vocabulary\<close>

text \<open>
  A handler either sends a JSON body with a status code (\<open>res.status(n).json(body)\<close>, 200 when
  no status is set) or hands an error to Express's error handler (\<open>next(error)\<close>): an
  \<open>AppError(message, statusCode)\<close> the handler constructed, or another error it caught (a failed
  database query), kept by its message.
\<close>

datatype app_error = AppError string nat | OtherError string

datatype 'b response = Json nat 'b | Next app_error

text \<open>
  The JSON bodies the handlers build: \<open>{status: 'success', data}\<close>, \<open>{status: 'error', message}\<close>
  and, for a job that is not finished, \<open>{status, message, job_id}\<close>.
\<close>

datatype 'd body =
    Success 'd
  | Error string
  | JobStatus string "string option" string

text \<open>
  The outcome of an axios call to the ML service: a reply (its \<open>response.data\<close>), or an axios
  error carrying the upstream response, if there was one, as its status code and its
  \<open>data.detail\<close>.
\<close>

datatype 'a axios = Reply 'a | AxiosError "(nat \<times> string option) option"

text \<open>\<open>error.response?.status || 502\<close> and \<open>error.response?.data?.detail || 'ML service unavailable'\<close>.\<close>

definition axiosErrorStatus :: "(nat \<times> string option) option \<Rightarrow> nat" where
  "axiosErrorStatus r = (case r of Some (st, _) \<Rightarrow> if st = 0 then 502 else st | None \<Rightarrow> 502)"

definition axiosErrorMessage :: "(nat \<times> string option) option \<Rightarrow> string" where
  "axiosErrorMessage r =
     (case r of
        Some (_, Some detail) \<Rightarrow> if detail = [] then ''ML service unavailable'' else detail
      | _ \<Rightarrow> ''ML service unavailable'')"

text \<open>
  The request as the handlers see it once \<open>authenticate\<close> has run: the account id and the tier
  taken from the token (middleware/auth.ts), the \<open>horizon\<close> query parameter (absent or a string),
  the route parameter \<open>:id\<close>, and the \<open>budget\<close> and \<open>constraints\<close> fields of the JSON body.
\<close>

record request =
  accountId :: "string option"
  tier :: "tier option"
  queryHorizon :: "string option"
  paramsId :: string
  bodyBudget :: jsval
  bodyConstraints :: jsval

text \<open>\<open>!req.accountId\<close>: the id is absent or the empty string.\<close>

definition noAccountId :: "request \<Rightarrow> bool" where
  "noAccountId req = (case accountId req of None \<Rightarrow> True | Some a \<Rightarrow> a = [])"

definition premiumRequired :: "string" where
  "premiumRequired = ''Premium feature. Please upgrade to access this feature.''"

section \<open>Forecast route (backend/src/routes/forecast.ts)\<close>

text \<open>
  \<open>parseInt(req.query.horizon as string) || 30\<close>. An absent parameter is \<open>undefined\<close>, which
  \<open>parseInt\<close> reads as the string \<open>undefined\<close>: \<open>NaN\<close>. \<open>NaN\<close> and 0 are falsy and give 30.
\<close>

definition requestedHorizon :: "string option \<Rightarrow> int option" where
  "requestedHorizon q = (case q of None \<Rightarrow> None | Some s \<Rightarrow> parseInt s)"

definition horizonOrDefault :: "int option \<Rightarrow> int" where
  "horizonOrDefault p = (case p of None \<Rightarrow> 30 | Some n \<Rightarrow> if n = 0 then 30 else n)"

text \<open>
  The route \<open>GET /api/v1/forecast\<close>: \<open>requirePremium\<close>, then the handler. \<open>ml\<close> is the ML
  service's \<open>/forecast\<close> endpoint, called with \<open>account_id\<close> and \<open>horizon\<close>; a reply is its
  \<open>response.data.data\<close>. The result is the response together with the list of calls made to
  the ML service.
\<close>

definition forecastRoute ::
  "(string \<Rightarrow> int \<Rightarrow> 'd axios) \<Rightarrow> request \<Rightarrow> 'd body response \<times> (string \<times> int) list" where
  "forecastRoute ml req =
     (if tier req \<noteq> Some Premium then (Json 403 (Error premiumRequired), [])
      else if noAccountId req then (Next (AppError ''Unauthorized'' 401), [])
      else
        let account = the (accountId req);
            horizon = horizonOrDefault (requestedHorizon (queryHorizon req))
        in if horizon < 7 \<or> horizon > 90
           then (Json 400 (Error ''Horizon must be between 7 and 90 days''), [])
           else (case ml account horizon of
                   Reply d \<Rightarrow> (Json 200 (Success d), [(account, horizon)])
                 | AxiosError r \<Rightarrow>
                     (Json (axiosErrorStatus r) (Error (axiosErrorMessage r)), [(account, horizon)])))"

section \<open>Optimizer route (backend/src/routes/optimizer.ts)\<close>

text \<open>\<open>!budget || budget <= 0\<close>.\<close>

definition budgetRejected :: "(jsval \<Rightarrow> rat option) \<Rightarrow> jsval \<Rightarrow> bool" where
  "budgetRejected coerce budget =
     (if truthy budget
      then (case toNumber coerce budget of Some n \<Rightarrow> n \<le> 0 | None \<Rightarrow> False)
      else True)"

text \<open>
  The route \<open>POST /api/v1/optimizer/run\<close>. \<open>ml\<close> is the ML service's \<open>/optimizer/run\<close> endpoint,
  called with \<open>account_id\<close>, \<open>budget\<close> and \<open>constraints || {}\<close>; a reply is its \<open>response.data\<close>.
\<close>

definition optimizerRoute ::
  "(jsval \<Rightarrow> rat option) \<Rightarrow> (string \<Rightarrow> jsval \<Rightarrow> jsval \<Rightarrow> 'd axios) \<Rightarrow> request \<Rightarrow>
     'd body response \<times> (string \<times> jsval \<times> jsval) list" where
  "optimizerRoute coerce ml req =
     (if tier req \<noteq> Some Premium then (Json 403 (Error premiumRequired), [])
      else if noAccountId req then (Next (AppError ''Unauthorized'' 401), [])
      else
        let account = the (accountId req);
            budget = bodyBudget req;
            constraints = (if truthy (bodyConstraints req) then bodyConstraints req else Object [])
        in if budgetRejected coerce budget
           then (Json 400 (Error ''Budget must be greater than 0''), [])
           else (case ml account budget constraints of
                   Reply d \<Rightarrow> (Json 200 (Success d), [(account, budget, constraints)])
                 | AxiosError r \<Rightarrow>
                     (Json (axiosErrorStatus r) (Error (axiosErrorMessage r)),
                      [(account, budget, constraints)])))"

section \<open>Attribution status route (routes/models.ts)\<close>

text \<open>
  A row of the table \<open>attribution_results\<close> (db/migrations/001_initial_schema.sql): its primary
  key \<open>id\<close>, the owning \<open>account_id\<close>, the nullable \<open>expires_at\<close>, and the remaining columns
  (model version, fit statistics, coefficients, contributions, confidence intervals, creation
  time) as one payload. Timestamps are integers (microseconds).
\<close>

record 'p attribution_row =
  row_id :: string
  row_account_id :: string
  row_expires_at :: "int option"
  row_payload :: 'p

text \<open>
  The database as the handler meets it: the table, the value of \<open>NOW()\<close>, and whether
  \<open>pool.query\<close> throws (an unreachable database, an id that is not a UUID), with the message.
\<close>

record 'p database =
  attribution_results :: "'p attribution_row list"
  dbNow :: int
  queryFailure :: "string option"

text \<open>
  \<open>SELECT * FROM attribution_results WHERE account_id = $1 AND id = $2
     AND (expires_at IS NULL OR expires_at > NOW())\<close>
\<close>

definition notExpired :: "int \<Rightarrow> 'p attribution_row \<Rightarrow> bool" where
  "notExpired now r = (case row_expires_at r of None \<Rightarrow> True | Some e \<Rightarrow> e > now)"

definition selectCached :: "'p database \<Rightarrow> string \<Rightarrow> string \<Rightarrow> 'p attribution_row list" where
  "selectCached db account jobId =
     filter (\<lambda>r. row_account_id r = account \<and> row_id r = jobId \<and> notExpired (dbNow db) r)
       (attribution_results db)"

text \<open>
  The ML service's reply to \<open>GET /attribution/:id\<close>, \<open>{ status, data, message }\<close>, each field
  possibly absent.
\<close>

record 'm ml_reply =
  ml_status :: "string option"
  ml_data :: "'m option"
  ml_message :: "string option"

datatype ('p, 'm) attribution_data = Cached "'p attribution_row" | Computed 'm

text \<open>\<open>response.data.status || 'unknown'\<close>.\<close>

definition statusOrUnknown :: "string option \<Rightarrow> string" where
  "statusOrUnknown s = (case s of Some t \<Rightarrow> if t = [] then ''unknown'' else t | None \<Rightarrow> ''unknown'')"

text \<open>
  The route \<open>GET /api/v1/models/attribution/:id\<close>: \<open>requirePremium\<close>, then the handler. \<open>ml\<close> is
  the ML service's \<open>/attribution/:id\<close> endpoint; the handler passes it the job id and nothing
  else. The result is the response and the list of job ids the ML service was asked for.
\<close>

definition attributionStatusRoute ::
  "'p database \<Rightarrow> (string \<Rightarrow> 'm ml_reply axios) \<Rightarrow> request \<Rightarrow>
     ('p, 'm) attribution_data body response \<times> string list" where
  "attributionStatusRoute db ml req =
     (if tier req \<noteq> Some Premium then (Json 403 (Error premiumRequired), [])
      else if noAccountId req then (Next (AppError ''Unauthorized'' 401), [])
      else
        (case queryFailure db of
           Some err \<Rightarrow> (Next (OtherError err), [])
         | None \<Rightarrow>
             let cached = selectCached db (the (accountId req)) (paramsId req)
             in if length cached > 0 then (Json 200 (Success (Cached (hd cached))), [])
                else (case ml (paramsId req) of
                        Reply r \<Rightarrow>
                          if ml_status r = Some ''completed'' \<and> ml_data r \<noteq> None
                          then (Json 200 (Success (Computed (the (ml_data r)))), [paramsId req])
                          else (Json 200 (JobStatus (statusOrUnknown (ml_status r)) (ml_message r)
                                            (paramsId req)),
                                [paramsId req])
                      | AxiosError _ \<Rightarrow>
                          (Json 502 (Error ''ML service unavailable''), [paramsId req]))))"

text \<open>
  Modelled from the spec: the ML service's job store is not part of these sources. A job,
  as section 3 of the specification has it, belongs to one account and carries a status, a
  result and an error message; \<open>GET /attribution/:id\<close> receives the job id alone and answers
  with the job's \<open>{ status, data, message }\<close>, or with status 404 when there is no such job.
\<close>

record 'm job =
  job_account_id :: string
  job_status :: string
  job_result :: "'m option"
  job_error :: "string option"

definition mlAttributionStatus :: "(string \<times> 'm job) list \<Rightarrow> string \<Rightarrow> 'm ml_reply axios" where
  "mlAttributionStatus jobs jobId =
     (case map_of jobs jobId of
        None \<Rightarrow> AxiosError (Some (404, Some ''Job not found''))
      | Some j \<Rightarrow>
          Reply \<lparr>ml_status = Some (job_status j), ml_data = job_result j, ml_message = job_error j\<rparr>)"

section \<open>Redis cache (services/redis.ts) and the cache middleware\<close>

text \<open>
  What awaiting a command of the Redis client gives: its value, the error it is rejected
  with, or nothing, because the promise never settles. The last is what the client of the
  \<open>redis\<close> package does with its default options while it has no connection to the server:
  once \<open>connect()\<close> has been called it keeps trying to connect, \<open>isOpen\<close> is true, and a
  command given to it is queued until the connection is there.
\<close>

datatype 'a promise = Fulfilled 'a | RejectedWith string | Pending

text \<open>How a command of the backend fails: it is rejected with an error, or it never settles.\<close>

datatype fault = Rejects string | NeverSettles

text \<open>
  The Redis client as the service uses it: whether it is open, the stored entries (the text
  and the time to live given to \<open>setEx\<close>; entries do not expire within one request), and, for
  each of \<open>connect\<close>, \<open>get\<close> and \<open>setEx\<close>, how it fails when the backend fails.
\<close>

record redis_client =
  isOpen :: bool
  entries :: "string \<Rightarrow> (string \<times> nat) option"
  connectFault :: "fault option"
  getFault :: "fault option"
  setExFault :: "fault option"

text \<open>
  \<open>redisClient.connect()\<close>: the promise, and the client once the call has been made. The
  client counts as open from the call on, also while it is still trying to reach the server;
  a \<open>connect\<close> that is rejected leaves it closed.
\<close>

definition connect :: "redis_client \<Rightarrow> unit promise \<times> redis_client" where
  "connect client =
     (case connectFault client of
        None \<Rightarrow> (Fulfilled (), client\<lparr>isOpen := True\<rparr>)
      | Some (Rejects err) \<Rightarrow> (RejectedWith err, client)
      | Some NeverSettles \<Rightarrow> (Pending, client\<lparr>isOpen := True\<rparr>))"

definition redisGet :: "redis_client \<Rightarrow> string \<Rightarrow> string option promise" where
  "redisGet client key =
     (case getFault client of
        None \<Rightarrow> Fulfilled (map_option fst (entries client key))
      | Some (Rejects err) \<Rightarrow> RejectedWith err
      | Some NeverSettles \<Rightarrow> Pending)"

definition redisSetEx ::
  "redis_client \<Rightarrow> string \<Rightarrow> nat \<Rightarrow> string \<Rightarrow> unit promise \<times> redis_client" where
  "redisSetEx client key ttlSeconds text =
     (case setExFault client of
        None \<Rightarrow> (Fulfilled (), client\<lparr>entries := (entries client)(key \<mapsto> (text, ttlSeconds))\<rparr>)
      | Some (Rejects err) \<Rightarrow> (RejectedWith err, client)
      | Some NeverSettles \<Rightarrow> (Pending, client))"

text \<open>
  When the module is loaded:
  \<open>if (!redisClient.isOpen) { redisClient.connect().catch(console.error); }\<close>.
  The promise is not awaited. The requests are served by the client as it is after this.
\<close>

definition moduleLoad :: "redis_client \<Rightarrow> redis_client" where
  "moduleLoad client = (if \<not> isOpen client then snd (connect client) else client)"

text \<open>\<open>if (!redisClient.isOpen) { await redisClient.connect(); }\<close>\<close>

definition ensureOpen :: "redis_client \<Rightarrow> unit promise \<times> redis_client" where
  "ensureOpen client = (if \<not> isOpen client then connect client else (Fulfilled (), client))"

text \<open>
  \<open>getCached\<close> and \<open>setCached\<close>. \<open>parse\<close> is \<open>JSON.parse\<close>, which throws on text that is not
  JSON; \<open>stringify\<close> is \<open>JSON.stringify\<close> on the tree-shaped values of \<open>jsval\<close>. Each function
  returns what awaiting it gives, and the client as it is afterwards. Every \<open>catch\<close> of the
  source logs the error and is a branch here; a \<open>catch\<close> runs when the awaited promise is
  rejected, and when the awaited promise never settles the function never returns.
\<close>

definition getCached ::
  "(string \<Rightarrow> jsval outcome) \<Rightarrow> redis_client \<Rightarrow> string \<Rightarrow> jsval promise \<times> redis_client" where
  "getCached parse client key =
     (case ensureOpen client of
        (Pending, client') \<Rightarrow> (Pending, client')
      | (RejectedWith err, client') \<Rightarrow> (Fulfilled Null, client')
      | (Fulfilled _, client') \<Rightarrow>
          (case redisGet client' key of
             Pending \<Rightarrow> (Pending, client')
           | RejectedWith err \<Rightarrow> (Fulfilled Null, client')
           | Fulfilled v \<Rightarrow>
               (case v of
                  None \<Rightarrow> (Fulfilled Null, client')
                | Some text \<Rightarrow>
                    if text = [] then (Fulfilled Null, client')
                    else (case parse text of
                            Rejected err \<Rightarrow> (Fulfilled Null, client')
                          | Resolved j \<Rightarrow> (Fulfilled j, client')))))"

definition setCached ::
  "(jsval \<Rightarrow> string) \<Rightarrow> redis_client \<Rightarrow> string \<Rightarrow> jsval \<Rightarrow> nat \<Rightarrow> unit promise \<times> redis_client" where
  "setCached stringify client key v ttlSeconds =
     (case ensureOpen client of
        (Pending, client') \<Rightarrow> (Pending, client')
      | (RejectedWith err, client') \<Rightarrow> (Fulfilled (), client')
      | (Fulfilled _, client') \<Rightarrow>
          (case redisSetEx client' key ttlSeconds (stringify v) of
             (Pending, client'') \<Rightarrow> (Pending, client'')
           | (RejectedWith err, client'') \<Rightarrow> (Fulfilled (), client'')
           | (Fulfilled _, client'') \<Rightarrow> (Fulfilled (), client'')))"

text \<open>
  The request as the cache middleware reads it, and the downstream handler as the response it
  produces when \<open>next()\<close> runs it: a body passed to \<open>res.json\<close> under a status, or an error
  passed on.
\<close>

record http_request =
  reqMethod :: string
  reqPath :: string
  reqQuery :: jsval
  reqAccountId :: "string option"

text \<open>
  \<open>keyGenerator ? keyGenerator(req)
     : `cache:${req.path}:${JSON.stringify(req.query)}:${req.accountId || 'anonymous'}`\<close>
\<close>

definition cacheKeyOf ::
  "(jsval \<Rightarrow> string) \<Rightarrow> (http_request \<Rightarrow> string) option \<Rightarrow> http_request \<Rightarrow> string" where
  "cacheKeyOf stringify keyGenerator req =
     (case keyGenerator of
        Some g \<Rightarrow> g req
      | None \<Rightarrow>
          ''cache:'' @ reqPath req @ '':'' @ stringify (reqQuery req) @ '':'' @
            (case reqAccountId req of
               None \<Rightarrow> ''anonymous''
             | Some a \<Rightarrow> if a = [] then ''anonymous'' else a))"

text \<open>
  \<open>cacheMiddleware({ttl, keyGenerator})\<close> applied to a request, with \<open>next\<close> the rest of the
  chain. The result is the response sent, \<open>None\<close> when the middleware neither sends one nor
  calls \<open>next()\<close>, and the client afterwards. On a miss the middleware wraps \<open>res.json\<close>: the body
  the handler sends is first handed to \<open>setCached\<close> (not awaited, its rejection logged) and
  then sent unchanged. The \<open>RejectedWith\<close> branch is the \<open>catch\<close> around the lookup; while
  \<open>await getCached(cacheKey)\<close> is pending nothing after it runs.
\<close>

definition cacheMiddleware ::
  "(string \<Rightarrow> jsval outcome) \<Rightarrow> (jsval \<Rightarrow> string) \<Rightarrow> nat \<Rightarrow> (http_request \<Rightarrow> string) option \<Rightarrow>
     redis_client \<Rightarrow> http_request \<Rightarrow> (http_request \<Rightarrow> jsval response) \<Rightarrow>
     jsval response option \<times> redis_client" where
  "cacheMiddleware parse stringify ttl keyGenerator client req next =
     (if reqMethod req \<noteq> ''GET'' then (Some (next req), client)
      else
        let cacheKey = cacheKeyOf stringify keyGenerator req
        in (case getCached parse client cacheKey of
              (Fulfilled cached, client') \<Rightarrow>
                if truthy cached then (Some (Json 200 cached), client')
                else (case next req of
                        Json status b \<Rightarrow>
                          (Some (Json status b), snd (setCached stringify client' cacheKey b ttl))
                      | Next err \<Rightarrow> (Some (Next err), client'))
            | (RejectedWith err, client') \<Rightarrow> (Some (next req), client')
            | (Pending, client') \<Rightarrow> (None, client')))"

text \<open>
  A failure of the cache backend on the read path that is reported as an error: the client is
  closed and \<open>connect\<close> is rejected, or \<open>get\<close> is rejected, or the text read is not JSON.
\<close>

definition readRejected :: "(string \<Rightarrow> jsval outcome) \<Rightarrow> redis_client \<Rightarrow> string \<Rightarrow> bool" where
  "readRejected parse client key =
     (case ensureOpen client of
        (Pending, _) \<Rightarrow> False
      | (RejectedWith err, _) \<Rightarrow> True
      | (Fulfilled _, client') \<Rightarrow>
          (case redisGet client' key of
             Pending \<Rightarrow> False
           | RejectedWith err \<Rightarrow> True
           | Fulfilled None \<Rightarrow> False
           | Fulfilled (Some text) \<Rightarrow>
               text \<noteq> [] \<and> (case parse text of Rejected _ \<Rightarrow> True | Resolved _ \<Rightarrow> False)))"

text \<open>
  The Redis server cannot be reached: no command of the client settles.
\<close>

definition unreachable :: "redis_client \<Rightarrow> bool" where
  "unreachable client =
     (connectFault client = Some NeverSettles \<and> getFault client = Some NeverSettles \<and>
      setExFault client = Some NeverSettles)"

section \<open>Verified properties\<close>

subsection \<open>Minimum data days\<close>

lemma set_newSet: "set (newSet xs) = set xs"
  by (simp add: newSet_def)

lemma distinct_newSet: "distinct (newSet xs)"
  by (simp add: newSet_def)

lemma length_newSet: "length (newSet xs) = card (set xs)"
  using distinct_card [OF distinct_newSet, of xs] by (simp add: set_newSet)

lemma validateMinimumDataDays_cases:
  "validateMinimumDataDays account dates =
     (if length dates < 60 then Invalid ''Minimum 60 days of data required for attribution''
      else if card (set dates) < 60 then Invalid ''Minimum 60 unique days of data required''
      else Valid)"
  by (simp add: validateMinimumDataDays_def Let_def length_newSet)

lemma minimumDataDaysWarning_cases:
  "minimumDataDaysWarning account metricsLength existingDays dates =
     (if 0 < metricsLength \<and> existingDays < 60 \<and> card (set dates - {''''}) < 60
      then [''Warning: Minimum 60 days of data required for attribution. Attribution models require at least 60 days of data.'']
      else [])"
proof -
  let ?l = "filter (\<lambda>d. d \<noteq> '''') (newSet (dates @ replicate existingDays ''''))"
  have d: "distinct ?l" by (simp add: distinct_newSet)
  have s: "set ?l = set dates - {''''}" by (auto simp: set_newSet)
  have l: "length ?l = card (set dates - {''''})" using distinct_card [OF d] s by simp
  have c: "card (set ?l) = card (set dates - {''''})" using s by simp
  show ?thesis
    unfolding minimumDataDaysWarning_def Let_def validateMinimumDataDays_cases l c
    by simp
qed

text \<open>
  Claim C1, as the code has it. The check accepts exactly the lists with at least 60 distinct
  dates. A rejected list is reported with one of two messages: \<open>Minimum 60 days of data required
  for attribution\<close> when the list has fewer than 60 entries, and \<open>Minimum 60 unique days of data
  required\<close> when it has 60 entries or more but fewer than 60 distinct ones. At CSV upload the
  list handed to the check is duplicate-free, so every warning pushed there carries the first
  message; it is pushed when a row was accepted and the stored days and the distinct uploaded
  dates together are fewer than 60, and it is not pushed when the account has 60 stored days
  or the upload has 60 distinct dates.
\<close>

theorem validateMinimumDataDays_sixty_unique_days:
  "(validateMinimumDataDays account dates = Valid \<longleftrightarrow> 60 \<le> card (set dates)) \<and>
   (card (set dates) < 60 \<longrightarrow>
      validateMinimumDataDays account dates =
        Invalid (if length dates < 60 then ''Minimum 60 days of data required for attribution''
                 else ''Minimum 60 unique days of data required'')) \<and>
   (\<forall>w \<in> set (minimumDataDaysWarning account metricsLength existingDays dates).
      w = ''Warning: Minimum 60 days of data required for attribution. Attribution models require at least 60 days of data.'') \<and>
   (0 < metricsLength \<and> existingDays + card (set dates - {''''}) < 60 \<longrightarrow>
      minimumDataDaysWarning account metricsLength existingDays dates =
        [''Warning: Minimum 60 days of data required for attribution. Attribution models require at least 60 days of data.'']) \<and>
   (60 \<le> existingDays \<or> 60 \<le> card (set dates - {''''}) \<longrightarrow>
      minimumDataDaysWarning account metricsLength existingDays dates = [])"
proof (intro conjI)
  show "validateMinimumDataDays account dates = Valid \<longleftrightarrow> 60 \<le> card (set dates)"
    using card_length [of dates] by (simp add: validateMinimumDataDays_cases)
next
  show "card (set dates) < 60 \<longrightarrow>
      validateMinimumDataDays account dates =
        Invalid (if length dates < 60 then ''Minimum 60 days of data required for attribution''
                 else ''Minimum 60 unique days of data required'')"
    by (simp add: validateMinimumDataDays_cases)
next
  show "\<forall>w \<in> set (minimumDataDaysWarning account metricsLength existingDays dates).
      w = ''Warning: Minimum 60 days of data required for attribution. Attribution models require at least 60 days of data.''"
    by (simp add: minimumDataDaysWarning_cases)
next
  show "0 < metricsLength \<and> existingDays + card (set dates - {''''}) < 60 \<longrightarrow>
      minimumDataDaysWarning account metricsLength existingDays dates =
        [''Warning: Minimum 60 days of data required for attribution. Attribution models require at least 60 days of data.'']"
    by (simp add: minimumDataDaysWarning_cases)
next
  show "60 \<le> existingDays \<or> 60 \<le> card (set dates - {''''}) \<longrightarrow>
      minimumDataDaysWarning account metricsLength existingDays dates = []"
    by (auto simp: minimumDataDaysWarning_cases)
qed

text \<open>The theorem at a two-row upload of an account with no stored data.\<close>

theorem validateMinimumDataDays_sixty_unique_days_witness:
  "card (set [''2025-01-01'', ''2025-01-02'']) < 60 \<and>
   validateMinimumDataDays ''acct'' [''2025-01-01'', ''2025-01-02''] =
     Invalid ''Minimum 60 days of data required for attribution'' \<and>
   minimumDataDaysWarning ''acct'' 2 0 [''2025-01-01'', ''2025-01-02''] =
     [''Warning: Minimum 60 days of data required for attribution. Attribution models require at least 60 days of data.'']"
proof -
  note t = validateMinimumDataDays_sixty_unique_days
    [of "''acct''" "[''2025-01-01'', ''2025-01-02'']" 2 0]
  have c: "card (set [''2025-01-01'', ''2025-01-02'']) < 60" by simp
  have d: "0 < (2 :: nat) \<and> 0 + card (set [''2025-01-01'', ''2025-01-02''] - {''''}) < 60"
    by simp
  have "validateMinimumDataDays ''acct'' [''2025-01-01'', ''2025-01-02''] =
      Invalid ''Minimum 60 days of data required for attribution''"
    using t [THEN conjunct2, THEN conjunct1, rule_format, OF c] by simp
  moreover have "minimumDataDaysWarning ''acct'' 2 0 [''2025-01-01'', ''2025-01-02''] =
     [''Warning: Minimum 60 days of data required for attribution. Attribution models require at least 60 days of data.'']"
    by (rule t [THEN conjunct2, THEN conjunct2, THEN conjunct2, THEN conjunct1, rule_format, OF d])
  ultimately show ?thesis using c by (intro conjI)
qed

text \<open>
  The claim as written names a single message for every list with fewer than 60 distinct dates.
  Sixty rows of one day have one distinct date and are rejected with the other message.
\<close>

theorem validateMinimumDataDays_message_counterexample:
  "card (set (replicate 60 ''2025-01-01'')) < 60 \<and>
   validateMinimumDataDays ''acct'' (replicate 60 ''2025-01-01'') =
     Invalid ''Minimum 60 unique days of data required'' \<and>
   validateMinimumDataDays ''acct'' (replicate 60 ''2025-01-01'') \<noteq>
     Invalid ''Minimum 60 days of data required for attribution''"
  by (simp add: validateMinimumDataDays_cases)

subsection \<open>Forecast horizon\<close>

lemma parseInt_zero: "parseInt ''0'' = Some 0"
  by (simp add: parseInt_def isStrWhiteSpace_def digitValue_def digitsValue_def)

lemma parseInt_six: "parseInt ''6'' = Some 6"
  by (simp add: parseInt_def isStrWhiteSpace_def digitValue_def digitsValue_def)

lemma parseInt_ninety: "parseInt ''90'' = Some 90"
  by (simp add: parseInt_def isStrWhiteSpace_def digitValue_def digitsValue_def)

text \<open>
  A premium, authenticated request whose \<open>horizon\<close> parameter parses to a non-zero integer \<open>n\<close>
  is rejected with status 400 and without a call to the ML service exactly when \<open>n\<close> is outside
  \<open>[7, 90]\<close>; otherwise the ML service is called with \<open>n\<close> and its outcome is the response.
\<close>

theorem forecastRoute_nonzero_horizon:
  assumes "tier req = Some Premium" and "\<not> noAccountId req"
    and "requestedHorizon (queryHorizon req) = Some n" and "n \<noteq> 0"
  shows "forecastRoute ml req =
     (if n < 7 \<or> 90 < n then (Json 400 (Error ''Horizon must be between 7 and 90 days''), [])
      else (case ml (the (accountId req)) n of
              Reply d \<Rightarrow> (Json 200 (Success d), [(the (accountId req), n)])
            | AxiosError r \<Rightarrow>
                (Json (axiosErrorStatus r) (Error (axiosErrorMessage r)), [(the (accountId req), n)])))"
  using assms by (simp add: forecastRoute_def horizonOrDefault_def Let_def)

theorem forecastRoute_nonzero_horizon_witness:
  "forecastRoute (\<lambda>account horizon. Reply horizon)
     \<lparr>accountId = Some ''acct'', tier = Some Premium, queryHorizon = Some ''6'', paramsId = [],
      bodyBudget = Undefined, bodyConstraints = Undefined\<rparr>
     = (Json 400 (Error ''Horizon must be between 7 and 90 days''), []) \<and>
   forecastRoute (\<lambda>account horizon. Reply horizon)
     \<lparr>accountId = Some ''acct'', tier = Some Premium, queryHorizon = Some ''90'', paramsId = [],
      bodyBudget = Undefined, bodyConstraints = Undefined\<rparr>
     = (Json 200 (Success 90), [(''acct'', 90)])"
  using
    forecastRoute_nonzero_horizon [where n = 6 and ml = "\<lambda>account horizon. Reply horizon" and
      req = "\<lparr>accountId = Some ''acct'', tier = Some Premium, queryHorizon = Some ''6'', paramsId = [],
              bodyBudget = Undefined, bodyConstraints = Undefined\<rparr>"]
    forecastRoute_nonzero_horizon [where n = 90 and ml = "\<lambda>account horizon. Reply horizon" and
      req = "\<lparr>accountId = Some ''acct'', tier = Some Premium, queryHorizon = Some ''90'', paramsId = [],
              bodyBudget = Undefined, bodyConstraints = Undefined\<rparr>"]
  by (simp add: noAccountId_def requestedHorizon_def parseInt_six parseInt_ninety)

text \<open>
  Claim C4 at the request \<open>GET /api/v1/forecast?horizon=0\<close> of a premium account. The requested
  horizon, 0, is outside \<open>[7, 90]\<close>; \<open>parseInt('0') || 30\<close> is 30, so the range check passes, the
  ML service is called with horizon 30 and its forecast is returned with status 200.
\<close>

theorem forecastRoute_horizon_zero_accepted:
  "requestedHorizon (Some ''0'') = Some 0 \<and>
   forecastRoute (\<lambda>account horizon. Reply horizon)
     \<lparr>accountId = Some ''acct'', tier = Some Premium, queryHorizon = Some ''0'', paramsId = [],
      bodyBudget = Undefined, bodyConstraints = Undefined\<rparr>
     = (Json 200 (Success 30), [(''acct'', 30)])"
  by (simp add: forecastRoute_def requestedHorizon_def horizonOrDefault_def noAccountId_def
      parseInt_zero)

subsection \<open>Optimizer budget\<close>

text \<open>
  Claim C5. For a premium, authenticated request: when the \<open>budget\<close> field of the body is
  missing (\<open>undefined\<close> or \<open>null\<close>), zero or negative, the response is status 400 with the
  message \<open>Budget must be greater than 0\<close> and the ML service is not called; when it is a
  strictly positive number, the ML service is called once with that budget and the response is
  the outcome of that call.
\<close>

theorem optimizerRoute_budget_check:
  assumes "tier req = Some Premium" and "\<not> noAccountId req"
  shows
    "(bodyBudget req = Undefined \<or> bodyBudget req = Null \<or>
        (\<exists>n. bodyBudget req = Number n \<and> n \<le> 0) \<longrightarrow>
      optimizerRoute coerce ml req = (Json 400 (Error ''Budget must be greater than 0''), [])) \<and>
     (\<forall>n. bodyBudget req = Number n \<and> 0 < n \<longrightarrow>
      optimizerRoute coerce ml req =
        (let account = the (accountId req);
             constraints = (if truthy (bodyConstraints req) then bodyConstraints req else Object [])
         in case ml account (Number n) constraints of
              Reply d \<Rightarrow> (Json 200 (Success d), [(account, Number n, constraints)])
            | AxiosError r \<Rightarrow>
                (Json (axiosErrorStatus r) (Error (axiosErrorMessage r)),
                 [(account, Number n, constraints)])))"
  using assms by (auto simp: optimizerRoute_def budgetRejected_def Let_def split: axios.splits)

theorem optimizerRoute_budget_check_witness:
  "optimizerRoute (\<lambda>v. None) (\<lambda>account budget constraints. Reply budget)
     \<lparr>accountId = Some ''acct'', tier = Some Premium, queryHorizon = None, paramsId = [],
      bodyBudget = Number 0, bodyConstraints = Undefined\<rparr>
     = (Json 400 (Error ''Budget must be greater than 0''), []) \<and>
   optimizerRoute (\<lambda>v. None) (\<lambda>account budget constraints. Reply budget)
     \<lparr>accountId = Some ''acct'', tier = Some Premium, queryHorizon = None, paramsId = [],
      bodyBudget = Number 1000, bodyConstraints = Undefined\<rparr>
     = (Json 200 (Success (Number 1000)), [(''acct'', Number 1000, Object [])])"
  using
    optimizerRoute_budget_check [where coerce = "\<lambda>v. None" and
      ml = "\<lambda>account budget constraints. Reply budget" and
      req = "\<lparr>accountId = Some ''acct'', tier = Some Premium, queryHorizon = None, paramsId = [],
              bodyBudget = Number 0, bodyConstraints = Undefined\<rparr>"]
    optimizerRoute_budget_check [where coerce = "\<lambda>v. None" and
      ml = "\<lambda>account budget constraints. Reply budget" and
      req = "\<lparr>accountId = Some ''acct'', tier = Some Premium, queryHorizon = None, paramsId = [],
              bodyBudget = Number 1000, bodyConstraints = Undefined\<rparr>"]
  by (simp add: noAccountId_def)

subsection \<open>Attribution status route\<close>





text \<open>The handler has no branch that answers 404.\<close>

lemma attributionStatusRoute_never_404: "fst (attributionStatusRoute db ml req) \<noteq> Json 404 b"
  by (auto simp: attributionStatusRoute_def Let_def split: if_splits option.splits axios.splits)

text \<open>
  When nothing is cached for either of two premium callers under the requested id, both get
  the same response: the account id takes no part in the call to the ML service.
\<close>

lemma attributionStatusRoute_caller_independent:
  assumes "tier req = Some Premium" and "\<not> noAccountId req"
    and "tier req' = Some Premium" and "\<not> noAccountId req'"
    and "paramsId req' = paramsId req"
    and "selectCached db (the (accountId req)) (paramsId req) = []"
    and "selectCached db (the (accountId req')) (paramsId req) = []"
  shows "attributionStatusRoute db ml req' = attributionStatusRoute db ml req"
  using assms by (auto simp: attributionStatusRoute_def Let_def split: option.splits axios.splits)

text \<open>
  Claim C2 at a concrete request. The job \<open>job-1\<close> belongs to account \<open>acct-B\<close> and is
  completed; nothing is cached. The premium caller \<open>acct-A\<close> asks for \<open>job-1\<close> and receives
  status 200 with the result of \<open>acct-B\<close>'s job, not a 404.
\<close>

theorem attributionStatusRoute_serves_other_accounts_job:
  "attributionStatusRoute \<lparr>attribution_results = [], dbNow = 0, queryFailure = None\<rparr>
     (mlAttributionStatus
        [(''job-1'', \<lparr>job_account_id = ''acct-B'', job_status = ''completed'',
                      job_result = Some ''attribution of acct-B'', job_error = None\<rparr>)])
     \<lparr>accountId = Some ''acct-A'', tier = Some Premium, queryHorizon = None, paramsId = ''job-1'',
      bodyBudget = Undefined, bodyConstraints = Undefined\<rparr>
   = (Json 200 (Success (Computed ''attribution of acct-B'')), [''job-1''])"
  by (simp add: attributionStatusRoute_def mlAttributionStatus_def selectCached_def noAccountId_def)



subsection \<open>Cache failures\<close>

lemma ensureOpen_cases:
  "ensureOpen client =
     (if isOpen client then (Fulfilled (), client)
      else case connectFault client of
             None \<Rightarrow> (Fulfilled (), client\<lparr>isOpen := True\<rparr>)
           | Some (Rejects err) \<Rightarrow> (RejectedWith err, client)
           | Some NeverSettles \<Rightarrow> (Pending, client\<lparr>isOpen := True\<rparr>))"
  by (simp add: ensureOpen_def connect_def)

text \<open>
  What \<open>getCached\<close> gives once the client is open: the value read, \<open>null\<close> for a rejected
  \<open>get\<close>, a missing or empty entry and text that is not JSON, and nothing while \<open>get\<close> is
  pending.
\<close>

lemma getCached_open:
  "isOpen client \<Longrightarrow>
   getCached parse client key =
     (case redisGet client key of
        Pending \<Rightarrow> (Pending, client)
      | RejectedWith err \<Rightarrow> (Fulfilled Null, client)
      | Fulfilled v \<Rightarrow>
          (case v of
             None \<Rightarrow> (Fulfilled Null, client)
           | Some text \<Rightarrow>
               if text = [] then (Fulfilled Null, client)
               else (case parse text of
                       Rejected err \<Rightarrow> (Fulfilled Null, client)
                     | Resolved j \<Rightarrow> (Fulfilled j, client))))"
  by (simp add: getCached_def ensureOpen_cases)

lemma getCached_closed:
  "\<not> isOpen client \<Longrightarrow>
   getCached parse client key =
     (case connectFault client of
        None \<Rightarrow> getCached parse (client\<lparr>isOpen := True\<rparr>) key
      | Some (Rejects err) \<Rightarrow> (Fulfilled Null, client)
      | Some NeverSettles \<Rightarrow> (Pending, client\<lparr>isOpen := True\<rparr>))"
  by (simp add: getCached_def ensureOpen_cases split: option.splits fault.splits)

lemma redisGet_isOpen: "redisGet (client\<lparr>isOpen := b\<rparr>) key = redisGet client key"
  by (simp add: redisGet_def split: option.splits fault.splits)

lemma redisGet_setExFault: "redisGet (client\<lparr>setExFault := f\<rparr>) key = redisGet client key"
  by (simp add: redisGet_def split: option.splits fault.splits)

lemma redisGet_pending_iff: "redisGet client key = Pending \<longleftrightarrow> getFault client = Some NeverSettles"
  by (simp add: redisGet_def split: option.splits fault.splits)

lemma getCached_open_fst:
  "isOpen client \<Longrightarrow>
   fst (getCached parse client key) =
     (case redisGet client key of
        Pending \<Rightarrow> Pending
      | RejectedWith err \<Rightarrow> Fulfilled Null
      | Fulfilled v \<Rightarrow>
          (case v of
             None \<Rightarrow> Fulfilled Null
           | Some text \<Rightarrow>
               if text = [] then Fulfilled Null
               else (case parse text of
                       Rejected err \<Rightarrow> Fulfilled Null
                     | Resolved j \<Rightarrow> Fulfilled j)))"
  by (simp add: getCached_open split: promise.splits option.splits outcome.splits)

lemma getCached_closed_fst:
  "\<not> isOpen client \<Longrightarrow>
   fst (getCached parse client key) =
     (case connectFault client of
        None \<Rightarrow> fst (getCached parse (client\<lparr>isOpen := True\<rparr>) key)
      | Some (Rejects err) \<Rightarrow> Fulfilled Null
      | Some NeverSettles \<Rightarrow> Pending)"
  by (simp add: getCached_closed split: option.splits fault.splits)

text \<open>Failures that are reported as errors are caught.\<close>

lemma getCached_never_rejected: "fst (getCached parse client key) \<noteq> RejectedWith err"
proof -
  have o: "fst (getCached parse c key) \<noteq> RejectedWith err" if "isOpen c" for c
    using that by (simp add: getCached_open_fst split: promise.splits option.splits outcome.splits)
  show ?thesis
  proof (cases "isOpen client")
    case True
    then show ?thesis by (rule o)
  next
    case False
    have "fst (getCached parse (client\<lparr>isOpen := True\<rparr>) key) \<noteq> RejectedWith err"
      by (rule o) simp
    with False show ?thesis
      by (simp add: getCached_closed_fst split: option.splits fault.splits)
  qed
qed

lemma setCached_never_rejected: "fst (setCached stringify client key v ttl) \<noteq> RejectedWith err"
  by (simp add: setCached_def split: prod.splits promise.splits)

text \<open>
  The lookup never settles exactly when the client is open, or is opened by a \<open>connect\<close> that
  succeeds, and \<open>get\<close> never settles, or the client is closed and \<open>connect\<close> never settles.
\<close>

lemma getCached_pending_iff:
  "fst (getCached parse client key) = Pending \<longleftrightarrow>
     (if isOpen client then getFault client = Some NeverSettles
      else connectFault client = Some NeverSettles \<or>
           (connectFault client = None \<and> getFault client = Some NeverSettles))"
proof -
  have o: "fst (getCached parse c key) = Pending \<longleftrightarrow> getFault c = Some NeverSettles"
    if "isOpen c" for c
    using that
    by (simp add: getCached_open_fst redisGet_def
        split: option.splits outcome.splits fault.splits)
  show ?thesis
  proof (cases "isOpen client")
    case True
    then show ?thesis by (simp add: o)
  next
    case False
    have "fst (getCached parse (client\<lparr>isOpen := True\<rparr>) key) = Pending \<longleftrightarrow>
        getFault client = Some NeverSettles"
      using o [of "client\<lparr>isOpen := True\<rparr>"] by simp
    with False show ?thesis
      by (simp add: getCached_closed_fst split: option.splits fault.splits)
  qed
qed

lemma getCached_readRejected:
  assumes "readRejected parse client key"
  shows "fst (getCached parse client key) = Fulfilled Null"
proof -
  have o: "fst (getCached parse c key) = Fulfilled Null"
    if "isOpen c" and
      "case redisGet c key of
         Pending \<Rightarrow> False
       | RejectedWith err \<Rightarrow> True
       | Fulfilled None \<Rightarrow> False
       | Fulfilled (Some text) \<Rightarrow>
           text \<noteq> [] \<and> (case parse text of Rejected _ \<Rightarrow> True | Resolved _ \<Rightarrow> False)" for c
    using that
    by (simp add: getCached_open_fst split: promise.splits option.splits outcome.splits)
  show ?thesis
  proof (cases "isOpen client")
    case True
    with assms show ?thesis
      by (intro o) (simp_all add: readRejected_def ensureOpen_cases)
  next
    case False
    show ?thesis
    proof (cases "connectFault client")
      case None
      with False assms have "fst (getCached parse (client\<lparr>isOpen := True\<rparr>) key) = Fulfilled Null"
        by (intro o) (simp_all add: readRejected_def ensureOpen_cases)
      with False None show ?thesis by (simp add: getCached_closed_fst)
    next
      case (Some f)
      with False assms show ?thesis
        by (cases f) (simp_all add: getCached_closed_fst readRejected_def ensureOpen_cases)
    qed
  qed
qed

text \<open>
  The response of the middleware, from what the lookup gives: a usable (truthy) cached value
  is sent with status 200; on a miss, and in the \<open>catch\<close>, the response is the real handler's;
  while the lookup is pending there is none.
\<close>

lemma cacheMiddleware_response:
  "fst (cacheMiddleware parse stringify ttl keyGenerator client req handler) =
     (if reqMethod req \<noteq> ''GET'' then Some (handler req)
      else case fst (getCached parse client (cacheKeyOf stringify keyGenerator req)) of
             Fulfilled cached \<Rightarrow>
               if truthy cached then Some (Json 200 cached) else Some (handler req)
           | RejectedWith err \<Rightarrow> Some (handler req)
           | Pending \<Rightarrow> None)"
proof (cases "getCached parse client (cacheKeyOf stringify keyGenerator req)")
  case (Pair p c)
  then show ?thesis
    by (cases p) (simp_all add: cacheMiddleware_def Let_def split: response.splits)
qed

lemma cacheMiddleware_readRejected:
  assumes "readRejected parse client (cacheKeyOf stringify keyGenerator req)"
  shows "fst (cacheMiddleware parse stringify ttl keyGenerator client req handler)
     = Some (handler req)"
  by (simp add: cacheMiddleware_response getCached_readRejected [OF assms])

text \<open>The write is not awaited, so how \<open>setEx\<close> fails makes no difference to the response.\<close>

lemma getCached_setExFault:
  "fst (getCached parse (client\<lparr>setExFault := f\<rparr>) key) = fst (getCached parse client key)"
proof -
  have o: "fst (getCached parse (c\<lparr>setExFault := f\<rparr>) key) = fst (getCached parse c key)"
    if "isOpen c" for c
    using that by (simp add: getCached_open_fst redisGet_setExFault)
  show ?thesis
  proof (cases "isOpen client")
    case True
    then show ?thesis by (rule o)
  next
    case False
    have "fst (getCached parse (client\<lparr>setExFault := f, isOpen := True\<rparr>) key)
        = fst (getCached parse (client\<lparr>isOpen := True\<rparr>) key)"
      by (simp add: getCached_open_fst redisGet_def split: option.splits fault.splits)
    with False show ?thesis
      by (simp add: getCached_closed_fst split: option.splits fault.splits)
  qed
qed

lemma cacheMiddleware_setExFault:
  "fst (cacheMiddleware parse stringify ttl keyGenerator (client\<lparr>setExFault := f\<rparr>) req handler)
     = fst (cacheMiddleware parse stringify ttl keyGenerator client req handler)"
  by (simp only: cacheMiddleware_response getCached_setExFault)

text \<open>
  The middleware sends no response exactly when the request is a \<open>GET\<close> and the lookup never
  settles.
\<close>

lemma cacheMiddleware_no_response_iff:
  "fst (cacheMiddleware parse stringify ttl keyGenerator client req handler) = None \<longleftrightarrow>
     reqMethod req = ''GET'' \<and>
     fst (getCached parse client (cacheKeyOf stringify keyGenerator req)) = Pending"
  by (simp add: cacheMiddleware_response split: promise.splits)

lemma moduleLoad_unreachable:
  "unreachable client \<Longrightarrow> isOpen (moduleLoad client) \<and> unreachable (moduleLoad client)"
  by (simp add: moduleLoad_def unreachable_def connect_def)

lemma cacheMiddleware_unreachable:
  assumes "unreachable client" and "reqMethod req = ''GET''"
  shows "fst (cacheMiddleware parse stringify ttl keyGenerator (moduleLoad client) req handler)
     = None"
  using moduleLoad_unreachable [OF assms(1)] assms(2)
  by (simp add: cacheMiddleware_no_response_iff getCached_pending_iff unreachable_def)

text \<open>
  Claim C7. The Redis server cannot be reached: \<open>connect\<close>, \<open>get\<close> and \<open>setEx\<close> never settle.
  The module has been loaded, so the client counts as open. Then for every \<open>GET\<close> request
  \<open>getCached\<close> never returns and the middleware sends no response, whatever response the
  handler gives with caching disabled.
\<close>

theorem cacheMiddleware_no_response_when_redis_unreachable:
  "isOpen (moduleLoad
     \<lparr>isOpen = False, entries = stored, connectFault = Some NeverSettles,
      getFault = Some NeverSettles, setExFault = Some NeverSettles\<rparr>) \<and>
   fst (getCached parse (moduleLoad
     \<lparr>isOpen = False, entries = stored, connectFault = Some NeverSettles,
      getFault = Some NeverSettles, setExFault = Some NeverSettles\<rparr>) key) = Pending \<and>
   fst (cacheMiddleware parse stringify ttl keyGenerator (moduleLoad
     \<lparr>isOpen = False, entries = stored, connectFault = Some NeverSettles,
      getFault = Some NeverSettles, setExFault = Some NeverSettles\<rparr>)
     \<lparr>reqMethod = ''GET'', reqPath = path, reqQuery = query, reqAccountId = account\<rparr> handler)
     = None"
  by (simp add: cacheMiddleware_no_response_iff getCached_pending_iff moduleLoad_def connect_def)

subsection \<open>Metrics store: the unique key and the transaction\<close>

lemma uniqueKey_doUpdate: "uniqueKey (doUpdate pg new r) = uniqueKey r"
  by (simp add: uniqueKey_def doUpdate_def)

lemma mm_id_doUpdate: "mm_id (doUpdate pg new r) = mm_id r"
  by (simp add: doUpdate_def)

lemma map_uniqueKey_update:
  "map uniqueKey (map (\<lambda>r. if uniqueKey r = k then doUpdate pg new r else r) rows)
     = map uniqueKey rows"
  by (induction rows) (simp_all add: uniqueKey_doUpdate)

lemma map_mm_id_update:
  "map mm_id (map (\<lambda>r. if uniqueKey r = k then doUpdate pg new r else r) rows) = map mm_id rows"
  by (induction rows) (simp_all add: mm_id_doUpdate)

lemma proposedRow_key:
  "proposedRow pg i account metric = Inr new \<Longrightarrow>
     \<exists>d. toDate pg (mi_date metric) = Some d \<and> uniqueKey new = (account, d, mi_channel metric)"
  by (auto simp: proposedRow_def uniqueKey_def split: option.splits sum.splits if_splits)

lemma insertMetric_distinct:
  assumes "insertMetric pg i rows account metric = Inr rows'"
    and "distinct (map uniqueKey rows)"
  shows "distinct (map uniqueKey rows')"
  using assms
  by (auto simp: insertMetric_def map_uniqueKey_update simp del: map_map
      split: sum.splits if_splits)

lemma insertMetric_keys:
  assumes "insertMetric pg i rows account metric = Inr rows'"
  shows "set (map uniqueKey rows) \<subseteq> set (map uniqueKey rows') \<and>
         (\<exists>d. toDate pg (mi_date metric) = Some d \<and>
              (account, d, mi_channel metric) \<in> set (map uniqueKey rows'))"
proof -
  from assms obtain new where n: "proposedRow pg i account metric = Inr new"
    by (auto simp: insertMetric_def split: sum.splits)
  from proposedRow_key [OF n] obtain d where d: "toDate pg (mi_date metric) = Some d"
    "uniqueKey new = (account, d, mi_channel metric)" by blast
  show ?thesis
  proof (cases "uniqueKey new \<in> set (map uniqueKey rows)")
    case True
    with assms n have "map uniqueKey rows' = map uniqueKey rows"
      by (auto simp: insertMetric_def map_uniqueKey_update simp del: map_map)
    with True d show ?thesis by auto
  next
    case False
    with assms n have "rows' = rows @ [new]"
      by (auto simp: insertMetric_def split: if_splits)
    with d show ?thesis by auto
  qed
qed

text \<open>
  The statement on a conflict: no row is added, every row keeps its key and its \<open>id\<close>, and the
  rows under the conflicting key carry the values of the proposed row.
\<close>

lemma insertMetric_conflict:
  assumes "proposedRow pg i account metric = Inr new"
    and "uniqueKey new \<in> set (map uniqueKey rows)"
  shows "\<exists>rows'. insertMetric pg i rows account metric = Inr rows' \<and>
           length rows' = length rows \<and> map uniqueKey rows' = map uniqueKey rows \<and>
           map mm_id rows' = map mm_id rows \<and>
           (\<forall>r \<in> set rows'. uniqueKey r = uniqueKey new \<longrightarrow>
              mm_spend r = mm_spend new \<and> mm_revenue r = mm_revenue new \<and>
              mm_impressions r = mm_impressions new \<and> mm_clicks r = mm_clicks new \<and>
              mm_conversions r = mm_conversions new \<and>
              mm_new_customers r = mm_new_customers new \<and>
              mm_returning_customers r = mm_returning_customers new \<and>
              mm_updated_at r = pgNow pg)"
proof -
  let ?rows' = "map (\<lambda>r. if uniqueKey r = uniqueKey new then doUpdate pg new r else r) rows"
  have "insertMetric pg i rows account metric = Inr ?rows'"
    using assms by (simp add: insertMetric_def)
  moreover have "map uniqueKey ?rows' = map uniqueKey rows"
    by (rule map_uniqueKey_update)
  moreover have "map mm_id ?rows' = map mm_id rows"
    by (rule map_mm_id_update)
  moreover have "\<forall>r \<in> set ?rows'. uniqueKey r = uniqueKey new \<longrightarrow>
              mm_spend r = mm_spend new \<and> mm_revenue r = mm_revenue new \<and>
              mm_impressions r = mm_impressions new \<and> mm_clicks r = mm_clicks new \<and>
              mm_conversions r = mm_conversions new \<and>
              mm_new_customers r = mm_new_customers new \<and>
              mm_returning_customers r = mm_returning_customers new \<and>
              mm_updated_at r = pgNow pg"
    by (auto simp: doUpdate_def uniqueKey_def)
  ultimately show ?thesis by simp
qed

lemma insertLoop_failure:
  "insertLoop pg i c account metrics = Inl (e, c') \<Longrightarrow> transaction c \<noteq> None \<Longrightarrow>
     committed c' = committed c"
proof (induction metrics arbitrary: i c)
  case Nil
  then show ?case by simp
next
  case (Cons m ms)
  show ?case
  proof (cases "queryInsert pg i c account m")
    case (Inl a)
    with Cons.prems show ?thesis by simp
  next
    case (Inr c1)
    with Cons.prems(2) have "committed c1 = committed c \<and> transaction c1 \<noteq> None"
      by (auto simp: queryInsert_def split: option.splits sum.splits)
    with Cons.IH [of "Suc i" c1] Cons.prems(1) Inr show ?thesis by simp
  qed
qed

lemma insertLoop_success:
  "insertLoop pg i c account metrics = Inr c' \<Longrightarrow> transaction c = Some w \<Longrightarrow>
   \<exists>w'. transaction c' = Some w' \<and> committed c' = committed c \<and>
     (distinct (map uniqueKey w) \<longrightarrow> distinct (map uniqueKey w')) \<and>
     set (map uniqueKey w) \<subseteq> set (map uniqueKey w') \<and>
     (\<forall>m \<in> set metrics. \<exists>d. toDate pg (mi_date m) = Some d \<and>
        (account, d, mi_channel m) \<in> set (map uniqueKey w'))"
proof (induction metrics arbitrary: i c w)
  case Nil
  then show ?case by simp
next
  case (Cons m ms)
  from Cons.prems(1) obtain c1 where q: "queryInsert pg i c account m = Inr c1"
    and l: "insertLoop pg (Suc i) c1 account ms = Inr c'"
    by (auto split: sum.splits)
  from q Cons.prems(2) obtain w1 where w1: "insertMetric pg i w account m = Inr w1"
    "transaction c1 = Some w1" "committed c1 = committed c"
    by (auto simp: queryInsert_def split: sum.splits)
  from Cons.IH [OF l w1(2)] obtain w' where w': "transaction c' = Some w'"
    "committed c' = committed c1"
    "distinct (map uniqueKey w1) \<longrightarrow> distinct (map uniqueKey w')"
    "set (map uniqueKey w1) \<subseteq> set (map uniqueKey w')"
    "\<forall>m \<in> set ms. \<exists>d. toDate pg (mi_date m) = Some d \<and>
        (account, d, mi_channel m) \<in> set (map uniqueKey w')"
    by blast
  from insertMetric_keys [OF w1(1)] w'(4)
  have "set (map uniqueKey w) \<subseteq> set (map uniqueKey w')"
    "\<exists>d. toDate pg (mi_date m) = Some d \<and> (account, d, mi_channel m) \<in> set (map uniqueKey w')"
    by blast+
  moreover have "distinct (map uniqueKey w) \<longrightarrow> distinct (map uniqueKey w')"
    using insertMetric_distinct [OF w1(1)] w'(3) by blast
  ultimately show ?case using w' w1(3) by auto
qed

lemma bulkInsert_failure:
  "fst (bulkInsert pg tbl account metrics) = Inl e \<Longrightarrow>
     snd (bulkInsert pg tbl account metrics) = tbl"
  by (auto simp: bulkInsert_def BEGIN_def ROLLBACK_def Let_def split: sum.splits prod.splits
      dest!: insertLoop_failure)

lemma bulkInsert_success:
  assumes "fst (bulkInsert pg tbl account metrics) = Inr ()"
  shows "(distinct (map uniqueKey tbl) \<longrightarrow>
            distinct (map uniqueKey (snd (bulkInsert pg tbl account metrics)))) \<and>
         set (map uniqueKey tbl) \<subseteq> set (map uniqueKey (snd (bulkInsert pg tbl account metrics))) \<and>
         (\<forall>m \<in> set metrics. \<exists>d. toDate pg (mi_date m) = Some d \<and>
            (account, d, mi_channel m) \<in> set (map uniqueKey (snd (bulkInsert pg tbl account metrics))))"
proof -
  let ?c = "BEGIN \<lparr>committed = tbl, transaction = None\<rparr>"
  from assms obtain c' where l: "insertLoop pg 0 ?c account metrics = Inr c'"
    by (auto simp: bulkInsert_def Let_def split: sum.splits prod.splits)
  have t: "transaction ?c = Some tbl" by (simp add: BEGIN_def)
  from insertLoop_success [OF l t] obtain w' where w': "transaction c' = Some w'"
    "distinct (map uniqueKey tbl) \<longrightarrow> distinct (map uniqueKey w')"
    "set (map uniqueKey tbl) \<subseteq> set (map uniqueKey w')"
    "\<forall>m \<in> set metrics. \<exists>d. toDate pg (mi_date m) = Some d \<and>
        (account, d, mi_channel m) \<in> set (map uniqueKey w')"
    by blast
  have "snd (bulkInsert pg tbl account metrics) = w'"
    using l w'(1) by (simp add: bulkInsert_def Let_def COMMIT_def)
  with w' show ?thesis by simp
qed

lemma bulkInsert_distinct:
  assumes "distinct (map uniqueKey tbl)"
  shows "distinct (map uniqueKey (snd (bulkInsert pg tbl account metrics)))"
proof (cases "fst (bulkInsert pg tbl account metrics)")
  case (Inl e)
  then show ?thesis using bulkInsert_failure [of pg tbl account metrics e] assms by simp
next
  case (Inr u)
  then show ?thesis using bulkInsert_success [of pg tbl account metrics] assms by simp
qed

lemma insertLoop_success_proposed:
  "insertLoop pg i c account metrics = Inr c' \<Longrightarrow>
     \<forall>m \<in> set metrics. \<exists>j new. proposedRow pg j account m = Inr new"
proof (induction metrics arbitrary: i c)
  case Nil
  then show ?case by simp
next
  case (Cons m ms)
  from Cons.prems obtain c1 where q: "queryInsert pg i c account m = Inr c1"
    and l: "insertLoop pg (Suc i) c1 account ms = Inr c'"
    by (auto split: sum.splits)
  from q have "\<exists>new. proposedRow pg i account m = Inr new"
    by (auto simp: queryInsert_def insertMetric_def split: option.splits sum.splits)
  with Cons.IH [OF l] show ?case by auto
qed

lemma bulkInsert_success_proposed:
  assumes "fst (bulkInsert pg tbl account metrics) = Inr ()"
  shows "\<forall>m \<in> set metrics. \<exists>j new. proposedRow pg j account m = Inr new"
proof -
  from assms obtain c' where
    "insertLoop pg 0 (BEGIN \<lparr>committed = tbl, transaction = None\<rparr>) account metrics = Inr c'"
    by (auto simp: bulkInsert_def Let_def split: sum.splits prod.splits)
  then show ?thesis by (rule insertLoop_success_proposed)
qed

lemma bulkInsert_example_conflict:
  "bulkInsert \<lparr>toDate = Some, accounts = [''acct''], pgNow = 200, gen_random_uuid = (\<lambda>i. ''id-2'')\<rparr>
     [\<lparr>mm_id = ''id-1'', mm_account_id = ''acct'', mm_date = ''2025-01-15'',
       mm_channel = ''Google Ads'', mm_spend = 5, mm_revenue = Some 7, mm_impressions = None,
       mm_clicks = None, mm_conversions = None, mm_new_customers = None,
       mm_returning_customers = None, mm_created_at = 100, mm_updated_at = 100\<rparr>]
     ''acct''
     [\<lparr>mi_date = ''2025-01-15'', mi_channel = ''Google Ads'', mi_spend = 21 / 2,
       mi_revenue = Some 0, mi_impressions = Some 1000, mi_clicks = None, mi_conversions = None,
       mi_new_customers = None, mi_returning_customers = None\<rparr>]
   = (Inr (),
      [\<lparr>mm_id = ''id-1'', mm_account_id = ''acct'', mm_date = ''2025-01-15'',
        mm_channel = ''Google Ads'', mm_spend = 21 / 2, mm_revenue = None,
        mm_impressions = Some 1000, mm_clicks = None, mm_conversions = None,
        mm_new_customers = None, mm_returning_customers = None, mm_created_at = 100,
        mm_updated_at = 200\<rparr>])"
  by code_simp

lemma proposedRow_example:
  "proposedRow \<lparr>toDate = Some, accounts = [''acct''], pgNow = 200, gen_random_uuid = (\<lambda>i. ''id-2'')\<rparr>
     0 ''acct''
     \<lparr>mi_date = ''2025-01-15'', mi_channel = ''Google Ads'', mi_spend = 21 / 2,
      mi_revenue = Some 0, mi_impressions = Some 1000, mi_clicks = None, mi_conversions = None,
      mi_new_customers = None, mi_returning_customers = None\<rparr>
   = Inr \<lparr>mm_id = ''id-2'', mm_account_id = ''acct'', mm_date = ''2025-01-15'',
          mm_channel = ''Google Ads'', mm_spend = 21 / 2, mm_revenue = None,
          mm_impressions = Some 1000, mm_clicks = None, mm_conversions = None,
          mm_new_customers = None, mm_returning_customers = None, mm_created_at = 200,
          mm_updated_at = 200\<rparr>"
  by code_simp

lemma proposedRow_example_negative_spend:
  "proposedRow \<lparr>toDate = Some, accounts = [''acct''], pgNow = 200, gen_random_uuid = g\<rparr>
     j ''acct''
     \<lparr>mi_date = ''2025-01-16'', mi_channel = ''Google Ads'', mi_spend = - 1,
      mi_revenue = None, mi_impressions = None, mi_clicks = None, mi_conversions = None,
      mi_new_customers = None, mi_returning_customers = None\<rparr>
   = Inl (CheckViolation ''spend'')"
  by (simp add: proposedRow_def numeric_12_2_def roundHalfAway_def orNull_def numericOpt_def
      int4Opt_def)

lemma bulkInsert_example_rollback:
  "bulkInsert \<lparr>toDate = Some, accounts = [''acct''], pgNow = 200, gen_random_uuid = (\<lambda>i. ''id-2'')\<rparr>
     [] ''acct''
     [\<lparr>mi_date = ''2025-01-15'', mi_channel = ''Google Ads'', mi_spend = 21 / 2,
       mi_revenue = Some 0, mi_impressions = Some 1000, mi_clicks = None, mi_conversions = None,
       mi_new_customers = None, mi_returning_customers = None\<rparr>,
      \<lparr>mi_date = ''2025-01-16'', mi_channel = ''Google Ads'', mi_spend = - 1,
       mi_revenue = None, mi_impressions = None, mi_clicks = None, mi_conversions = None,
       mi_new_customers = None, mi_returning_customers = None\<rparr>]
   = (Inl (CheckViolation ''spend''), [])"
  by code_simp

lemma proposedRow_metricKey:
  "proposedRow pg i account metric = Inr new \<Longrightarrow> metricKey pg account metric = Some (uniqueKey new)"
  using proposedRow_key [of pg i account metric new] by (auto simp: metricKey_def)

lemma doUpdate_doUpdate: "doUpdate pg new (doUpdate pg new1 r) = doUpdate pg new r"
  by (simp add: doUpdate_def)

lemma insertMetric_cases:
  assumes "insertMetric pg i rows account metric = Inr rows'"
  shows "\<exists>new. proposedRow pg i account metric = Inr new \<and>
           (if uniqueKey new \<in> set (map uniqueKey rows)
            then rows' = map (\<lambda>r. if uniqueKey r = uniqueKey new then doUpdate pg new r else r) rows
            else rows' = rows @ [new])"
  using assms by (auto simp: insertMetric_def split: sum.splits if_splits)

lemma insertMetric_stored:
  assumes "insertMetric pg i rows account metric = Inr rows'"
  shows "\<exists>new. proposedRow pg i account metric = Inr new \<and>
           length rows \<le> length rows' \<and>
           set (map uniqueKey rows') = insert (uniqueKey new) (set (map uniqueKey rows)) \<and>
           (\<forall>j < length rows.
              rows' ! j = (if uniqueKey (rows ! j) = uniqueKey new then doUpdate pg new (rows ! j)
                           else rows ! j))"
proof -
  from insertMetric_cases [OF assms] obtain new where
    n: "proposedRow pg i account metric = Inr new" and
    r: "if uniqueKey new \<in> set (map uniqueKey rows)
            then rows' = map (\<lambda>r. if uniqueKey r = uniqueKey new then doUpdate pg new r else r) rows
            else rows' = rows @ [new]" by blast
  show ?thesis
  proof (cases "uniqueKey new \<in> set (map uniqueKey rows)")
    case True
    with r have e: "rows' = map (\<lambda>r. if uniqueKey r = uniqueKey new then doUpdate pg new r else r) rows"
      by simp
    have "map uniqueKey rows' = map uniqueKey rows"
      unfolding e by (rule map_uniqueKey_update)
    then have "set (map uniqueKey rows') = insert (uniqueKey new) (set (map uniqueKey rows))"
      using True by auto
    moreover have "length rows \<le> length rows'" by (simp add: e)
    moreover have "\<forall>j < length rows.
              rows' ! j = (if uniqueKey (rows ! j) = uniqueKey new then doUpdate pg new (rows ! j)
                           else rows ! j)"
      by (simp add: e)
    ultimately show ?thesis using n by blast
  next
    case False
    with r have e: "rows' = rows @ [new]" by simp
    have "\<forall>j < length rows. uniqueKey (rows ! j) \<noteq> uniqueKey new"
      using False by (metis length_map nth_map nth_mem)
    then have "\<forall>j < length rows.
              rows' ! j = (if uniqueKey (rows ! j) = uniqueKey new then doUpdate pg new (rows ! j)
                           else rows ! j)"
      by (simp add: e nth_append)
    moreover have "set (map uniqueKey rows') = insert (uniqueKey new) (set (map uniqueKey rows))"
      by (simp add: e)
    moreover have "length rows \<le> length rows'" by (simp add: e)
    ultimately show ?thesis using n by blast
  qed
qed

lemma insertLoop_stored:
  "insertLoop pg i c account metrics = Inr c' \<Longrightarrow> transaction c = Some w \<Longrightarrow>
   \<exists>w'. transaction c' = Some w' \<and> length w \<le> length w' \<and>
     set (map uniqueKey w') = set (map uniqueKey w) \<union> {k. metricsUnder pg account metrics k \<noteq> []} \<and>
     (\<forall>j < length w.
        uniqueKey (w' ! j) = uniqueKey (w ! j) \<and>
        (metricsUnder pg account metrics (uniqueKey (w ! j)) = [] \<longrightarrow> w' ! j = w ! j) \<and>
        (metricsUnder pg account metrics (uniqueKey (w ! j)) \<noteq> [] \<longrightarrow>
           (\<exists>n new. proposedRow pg n account (last (metricsUnder pg account metrics (uniqueKey (w ! j)))) = Inr new \<and>
              w' ! j = doUpdate pg new (w ! j))))"
proof (induction metrics arbitrary: i c w)
  case Nil
  then show ?case by simp
next
  case (Cons m ms)
  from Cons.prems(1) obtain c1 where q: "queryInsert pg i c account m = Inr c1"
    and l: "insertLoop pg (Suc i) c1 account ms = Inr c'"
    by (auto split: sum.splits)
  from q Cons.prems(2) obtain w1 where w1: "insertMetric pg i w account m = Inr w1"
    "transaction c1 = Some w1"
    by (auto simp: queryInsert_def split: sum.splits)
  from insertMetric_stored [OF w1(1)] obtain new1 where
    n1: "proposedRow pg i account m = Inr new1" and
    len1: "length w \<le> length w1" and
    keys1: "set (map uniqueKey w1) = insert (uniqueKey new1) (set (map uniqueKey w))" and
    st1: "\<forall>j < length w.
              w1 ! j = (if uniqueKey (w ! j) = uniqueKey new1 then doUpdate pg new1 (w ! j)
                           else w ! j)" by blast
  have k1: "metricKey pg account m = Some (uniqueKey new1)"
    by (rule proposedRow_metricKey [OF n1])
  from Cons.IH [OF l w1(2)] obtain w' where
    t: "transaction c' = Some w'" and
    len: "length w1 \<le> length w'" and
    keys: "set (map uniqueKey w') = set (map uniqueKey w1) \<union> {k. metricsUnder pg account ms k \<noteq> []}" and
    st: "\<forall>j < length w1.
        uniqueKey (w' ! j) = uniqueKey (w1 ! j) \<and>
        (metricsUnder pg account ms (uniqueKey (w1 ! j)) = [] \<longrightarrow> w' ! j = w1 ! j) \<and>
        (metricsUnder pg account ms (uniqueKey (w1 ! j)) \<noteq> [] \<longrightarrow>
           (\<exists>n new. proposedRow pg n account (last (metricsUnder pg account ms (uniqueKey (w1 ! j)))) = Inr new \<and>
              w' ! j = doUpdate pg new (w1 ! j)))" by blast
  have keys': "set (map uniqueKey w') = set (map uniqueKey w) \<union> {k. metricsUnder pg account (m # ms) k \<noteq> []}"
    unfolding keys keys1 using k1 by auto
  have st': "\<forall>j < length w.
        uniqueKey (w' ! j) = uniqueKey (w ! j) \<and>
        (metricsUnder pg account (m # ms) (uniqueKey (w ! j)) = [] \<longrightarrow> w' ! j = w ! j) \<and>
        (metricsUnder pg account (m # ms) (uniqueKey (w ! j)) \<noteq> [] \<longrightarrow>
           (\<exists>n new. proposedRow pg n account (last (metricsUnder pg account (m # ms) (uniqueKey (w ! j)))) = Inr new \<and>
              w' ! j = doUpdate pg new (w ! j)))"
  proof (intro allI impI)
    fix j assume j: "j < length w"
    define k where "k = uniqueKey (w ! j)"
    define g where "g = metricsUnder pg account ms k"
    from j len1 have j1: "j < length w1" by simp
    have e1: "w1 ! j = (if k = uniqueKey new1 then doUpdate pg new1 (w ! j) else w ! j)"
      using st1 j by (simp add: k_def)
    have kk: "uniqueKey (w1 ! j) = k"
      by (simp add: e1 uniqueKey_doUpdate k_def)
    from st [rule_format, OF j1] have s1: "uniqueKey (w' ! j) = k"
      and s2: "g = [] \<longrightarrow> w' ! j = w1 ! j"
      and s3: "g \<noteq> [] \<longrightarrow> (\<exists>n new. proposedRow pg n account (last g) = Inr new \<and>
              w' ! j = doUpdate pg new (w1 ! j))"
      unfolding kk g_def by blast+
    have gg: "metricsUnder pg account (m # ms) k = (if k = uniqueKey new1 then m # g else g)"
      using k1 by (auto simp: g_def)
    have c: "(metricsUnder pg account (m # ms) k = [] \<longrightarrow> w' ! j = w ! j) \<and>
        (metricsUnder pg account (m # ms) k \<noteq> [] \<longrightarrow>
           (\<exists>n new. proposedRow pg n account (last (metricsUnder pg account (m # ms) k)) = Inr new \<and>
              w' ! j = doUpdate pg new (w ! j)))"
    proof (cases "g = []")
      case True
      with s2 have "w' ! j = w1 ! j" by simp
      with e1 n1 True show ?thesis unfolding gg by auto
    next
      case False
      with s3 obtain n new where nn: "proposedRow pg n account (last g) = Inr new"
        "w' ! j = doUpdate pg new (w1 ! j)" by blast
      have "w' ! j = doUpdate pg new (w ! j)"
        unfolding nn(2) e1 by (simp add: doUpdate_doUpdate)
      with nn(1) False show ?thesis unfolding gg by auto
    qed
    show "uniqueKey (w' ! j) = uniqueKey (w ! j) \<and>
        (metricsUnder pg account (m # ms) (uniqueKey (w ! j)) = [] \<longrightarrow> w' ! j = w ! j) \<and>
        (metricsUnder pg account (m # ms) (uniqueKey (w ! j)) \<noteq> [] \<longrightarrow>
           (\<exists>n new. proposedRow pg n account (last (metricsUnder pg account (m # ms) (uniqueKey (w ! j)))) = Inr new \<and>
              w' ! j = doUpdate pg new (w ! j)))"
      using c s1 unfolding k_def by blast
  qed
  from len len1 have "length w \<le> length w'" by simp
  with t keys' st' show ?case by blast
qed

lemma bulkInsert_stored:
  assumes "fst (bulkInsert pg tbl account metrics) = Inr ()"
  shows "length tbl \<le> length (snd (bulkInsert pg tbl account metrics)) \<and>
     set (map uniqueKey (snd (bulkInsert pg tbl account metrics)))
       = set (map uniqueKey tbl) \<union> {k. metricsUnder pg account metrics k \<noteq> []} \<and>
     (\<forall>j < length tbl.
        uniqueKey (snd (bulkInsert pg tbl account metrics) ! j) = uniqueKey (tbl ! j) \<and>
        (metricsUnder pg account metrics (uniqueKey (tbl ! j)) = [] \<longrightarrow>
           snd (bulkInsert pg tbl account metrics) ! j = tbl ! j) \<and>
        (metricsUnder pg account metrics (uniqueKey (tbl ! j)) \<noteq> [] \<longrightarrow>
           (\<exists>n new. proposedRow pg n account
                (last (metricsUnder pg account metrics (uniqueKey (tbl ! j)))) = Inr new \<and>
              snd (bulkInsert pg tbl account metrics) ! j = doUpdate pg new (tbl ! j))))"
proof -
  let ?c = "BEGIN \<lparr>committed = tbl, transaction = None\<rparr>"
  from assms obtain c' where l: "insertLoop pg 0 ?c account metrics = Inr c'"
    by (auto simp: bulkInsert_def Let_def split: sum.splits prod.splits)
  have t: "transaction ?c = Some tbl" by (simp add: BEGIN_def)
  from insertLoop_stored [OF l t] obtain w' where w': "transaction c' = Some w'"
    and r: "length tbl \<le> length w' \<and>
     set (map uniqueKey w') = set (map uniqueKey tbl) \<union> {k. metricsUnder pg account metrics k \<noteq> []} \<and>
     (\<forall>j < length tbl.
        uniqueKey (w' ! j) = uniqueKey (tbl ! j) \<and>
        (metricsUnder pg account metrics (uniqueKey (tbl ! j)) = [] \<longrightarrow> w' ! j = tbl ! j) \<and>
        (metricsUnder pg account metrics (uniqueKey (tbl ! j)) \<noteq> [] \<longrightarrow>
           (\<exists>n new. proposedRow pg n account (last (metricsUnder pg account metrics (uniqueKey (tbl ! j)))) = Inr new \<and>
              w' ! j = doUpdate pg new (tbl ! j))))"
    by blast
  have "snd (bulkInsert pg tbl account metrics) = w'"
    using l w' by (simp add: bulkInsert_def Let_def COMMIT_def)
  with r show ?thesis by simp
qed

lemma bulkInsert_count:
  assumes "distinct (map uniqueKey tbl)"
    and "fst (bulkInsert pg tbl account metrics) = Inr ()"
  shows "length (snd (bulkInsert pg tbl account metrics))
     = length tbl + card ({k. metricsUnder pg account metrics k \<noteq> []} - set (map uniqueKey tbl))"
proof -
  define tbl' where "tbl' = snd (bulkInsert pg tbl account metrics)"
  define G where "G = {k. metricsUnder pg account metrics k \<noteq> []}"
  have d: "distinct (map uniqueKey tbl')"
    unfolding tbl'_def by (rule bulkInsert_distinct [OF assms(1)])
  have k: "set (map uniqueKey tbl') = set (map uniqueKey tbl) \<union> G"
    unfolding tbl'_def G_def using bulkInsert_stored [OF assms(2)] by blast
  have "finite (set (map uniqueKey tbl'))" by (rule finite_set)
  with k have f: "finite (G - set (map uniqueKey tbl))" by (metis finite_Diff finite_Un)
  have "length tbl' = card (set (map uniqueKey tbl'))"
    using distinct_card [OF d] by simp
  also have "\<dots> = card (set (map uniqueKey tbl) \<union> (G - set (map uniqueKey tbl)))"
    unfolding k by (simp add: Un_Diff_cancel)
  also have "\<dots> = card (set (map uniqueKey tbl)) + card (G - set (map uniqueKey tbl))"
    by (rule card_Un_disjoint) (use f in auto)
  also have "card (set (map uniqueKey tbl)) = length tbl"
    using distinct_card [OF assms(1)] by simp
  finally show ?thesis unfolding tbl'_def G_def .
qed

lemma proposedRow_example_at:
  "proposedRow \<lparr>toDate = Some, accounts = [''acct''], pgNow = 200, gen_random_uuid = (\<lambda>i. ''id-2'')\<rparr>
     n ''acct''
     \<lparr>mi_date = ''2025-01-15'', mi_channel = ''Google Ads'', mi_spend = 21 / 2,
      mi_revenue = Some 0, mi_impressions = Some 1000, mi_clicks = None, mi_conversions = None,
      mi_new_customers = None, mi_returning_customers = None\<rparr>
   = Inr \<lparr>mm_id = ''id-2'', mm_account_id = ''acct'', mm_date = ''2025-01-15'',
          mm_channel = ''Google Ads'', mm_spend = 21 / 2, mm_revenue = None,
          mm_impressions = Some 1000, mm_clicks = None, mm_conversions = None,
          mm_new_customers = None, mm_returning_customers = None, mm_created_at = 200,
          mm_updated_at = 200\<rparr>"
  by code_simp

text \<open>
  Claim C3. A table with at most one row per (account, date, channel) is again such a table
  after \<open>bulkInsert\<close>, whether the call succeeds or fails. When the call succeeds, the keys of
  the table afterwards are the keys stored before and the keys of the metrics given, and the
  table has grown by one row for each given key that was not stored, by none for a key that
  was. Every row stored before is at its place afterwards: unchanged when no metric of the
  call has its key; otherwise it is the same row (same \<open>id\<close>, key and \<open>created_at\<close>) with the
  spend, revenue, impressions, clicks, conversions and customer counts of the last metric
  given under its key, and \<open>updated_at\<close> set to \<open>NOW()\<close>.
\<close>

theorem bulkInsert_preserves_unique_key:
  assumes "distinct (map uniqueKey tbl)"
  shows "distinct (map uniqueKey (snd (bulkInsert pg tbl account metrics))) \<and>
     (fst (bulkInsert pg tbl account metrics) = Inr () \<longrightarrow>
        set (map uniqueKey (snd (bulkInsert pg tbl account metrics)))
          = set (map uniqueKey tbl) \<union> {k. metricsUnder pg account metrics k \<noteq> []} \<and>
        length (snd (bulkInsert pg tbl account metrics))
          = length tbl + card ({k. metricsUnder pg account metrics k \<noteq> []} - set (map uniqueKey tbl)) \<and>
        (\<forall>j < length tbl.
           (metricsUnder pg account metrics (uniqueKey (tbl ! j)) = [] \<longrightarrow>
              snd (bulkInsert pg tbl account metrics) ! j = tbl ! j) \<and>
           (metricsUnder pg account metrics (uniqueKey (tbl ! j)) \<noteq> [] \<longrightarrow>
              (\<exists>n new. proposedRow pg n account
                   (last (metricsUnder pg account metrics (uniqueKey (tbl ! j)))) = Inr new \<and>
                 snd (bulkInsert pg tbl account metrics) ! j = doUpdate pg new (tbl ! j)))))"
proof (intro conjI impI)
  show "distinct (map uniqueKey (snd (bulkInsert pg tbl account metrics)))"
    by (rule bulkInsert_distinct [OF assms])
next
  assume ok: "fst (bulkInsert pg tbl account metrics) = Inr ()"
  show "set (map uniqueKey (snd (bulkInsert pg tbl account metrics)))
          = set (map uniqueKey tbl) \<union> {k. metricsUnder pg account metrics k \<noteq> []}"
    using bulkInsert_stored [OF ok] by blast
next
  assume ok: "fst (bulkInsert pg tbl account metrics) = Inr ()"
  show "length (snd (bulkInsert pg tbl account metrics))
          = length tbl + card ({k. metricsUnder pg account metrics k \<noteq> []} - set (map uniqueKey tbl))"
    by (rule bulkInsert_count [OF assms ok])
next
  assume ok: "fst (bulkInsert pg tbl account metrics) = Inr ()"
  show "\<forall>j < length tbl.
           (metricsUnder pg account metrics (uniqueKey (tbl ! j)) = [] \<longrightarrow>
              snd (bulkInsert pg tbl account metrics) ! j = tbl ! j) \<and>
           (metricsUnder pg account metrics (uniqueKey (tbl ! j)) \<noteq> [] \<longrightarrow>
              (\<exists>n new. proposedRow pg n account
                   (last (metricsUnder pg account metrics (uniqueKey (tbl ! j)))) = Inr new \<and>
                 snd (bulkInsert pg tbl account metrics) ! j = doUpdate pg new (tbl ! j)))"
    using bulkInsert_stored [OF ok] by blast
qed

text \<open>
  The theorem at a table of one row and a call with one metric of the same account, date and
  channel: the stored row keeps its \<open>id\<close> and \<open>created_at\<close>, takes the spend 10.5, the revenue
  \<open>NULL\<close> (0 is sent as \<open>NULL\<close>) and the 1000 impressions of the metric, and stays the only row.
\<close>

theorem bulkInsert_preserves_unique_key_witness:
  "distinct (map uniqueKey
     [\<lparr>mm_id = ''id-1'', mm_account_id = ''acct'', mm_date = ''2025-01-15'',
       mm_channel = ''Google Ads'', mm_spend = 5, mm_revenue = Some 7, mm_impressions = None,
       mm_clicks = None, mm_conversions = None, mm_new_customers = None,
       mm_returning_customers = None, mm_created_at = 100, mm_updated_at = (100::int)\<rparr>]) \<and>
   fst (bulkInsert
     \<lparr>toDate = Some, accounts = [''acct''], pgNow = 200, gen_random_uuid = (\<lambda>i. ''id-2'')\<rparr>
     [\<lparr>mm_id = ''id-1'', mm_account_id = ''acct'', mm_date = ''2025-01-15'',
       mm_channel = ''Google Ads'', mm_spend = 5, mm_revenue = Some 7, mm_impressions = None,
       mm_clicks = None, mm_conversions = None, mm_new_customers = None,
       mm_returning_customers = None, mm_created_at = 100, mm_updated_at = 100\<rparr>]
     ''acct''
     [\<lparr>mi_date = ''2025-01-15'', mi_channel = ''Google Ads'', mi_spend = 21 / 2,
       mi_revenue = Some 0, mi_impressions = Some 1000, mi_clicks = None, mi_conversions = None,
       mi_new_customers = None, mi_returning_customers = None\<rparr>]) = Inr () \<and>
   metricsUnder
     \<lparr>toDate = Some, accounts = [''acct''], pgNow = 200, gen_random_uuid = (\<lambda>i. ''id-2'')\<rparr>
     ''acct''
     [\<lparr>mi_date = ''2025-01-15'', mi_channel = ''Google Ads'', mi_spend = 21 / 2,
       mi_revenue = Some 0, mi_impressions = Some 1000, mi_clicks = None, mi_conversions = None,
       mi_new_customers = None, mi_returning_customers = None\<rparr>]
     (''acct'', ''2025-01-15'', ''Google Ads'') \<noteq> [] \<and>
   snd (bulkInsert
     \<lparr>toDate = Some, accounts = [''acct''], pgNow = 200, gen_random_uuid = (\<lambda>i. ''id-2'')\<rparr>
     [\<lparr>mm_id = ''id-1'', mm_account_id = ''acct'', mm_date = ''2025-01-15'',
       mm_channel = ''Google Ads'', mm_spend = 5, mm_revenue = Some 7, mm_impressions = None,
       mm_clicks = None, mm_conversions = None, mm_new_customers = None,
       mm_returning_customers = None, mm_created_at = 100, mm_updated_at = 100\<rparr>]
     ''acct''
     [\<lparr>mi_date = ''2025-01-15'', mi_channel = ''Google Ads'', mi_spend = 21 / 2,
       mi_revenue = Some 0, mi_impressions = Some 1000, mi_clicks = None, mi_conversions = None,
       mi_new_customers = None, mi_returning_customers = None\<rparr>]) ! 0
   = \<lparr>mm_id = ''id-1'', mm_account_id = ''acct'', mm_date = ''2025-01-15'',
       mm_channel = ''Google Ads'', mm_spend = 21 / 2, mm_revenue = None,
       mm_impressions = Some 1000, mm_clicks = None, mm_conversions = None,
       mm_new_customers = None, mm_returning_customers = None, mm_created_at = 100,
       mm_updated_at = 200\<rparr> \<and>
   length (snd (bulkInsert
     \<lparr>toDate = Some, accounts = [''acct''], pgNow = 200, gen_random_uuid = (\<lambda>i. ''id-2'')\<rparr>
     [\<lparr>mm_id = ''id-1'', mm_account_id = ''acct'', mm_date = ''2025-01-15'',
       mm_channel = ''Google Ads'', mm_spend = 5, mm_revenue = Some 7, mm_impressions = None,
       mm_clicks = None, mm_conversions = None, mm_new_customers = None,
       mm_returning_customers = None, mm_created_at = 100, mm_updated_at = 100\<rparr>]
     ''acct''
     [\<lparr>mi_date = ''2025-01-15'', mi_channel = ''Google Ads'', mi_spend = 21 / 2,
       mi_revenue = Some 0, mi_impressions = Some 1000, mi_clicks = None, mi_conversions = None,
       mi_new_customers = None, mi_returning_customers = None\<rparr>])) = 1"
proof -
  define pg :: "string postgres" where
    "pg = \<lparr>toDate = Some, accounts = [''acct''], pgNow = 200, gen_random_uuid = (\<lambda>i. ''id-2'')\<rparr>"
  define r0 :: "string MarketingMetric" where
    "r0 = \<lparr>mm_id = ''id-1'', mm_account_id = ''acct'', mm_date = ''2025-01-15'',
       mm_channel = ''Google Ads'', mm_spend = 5, mm_revenue = Some 7, mm_impressions = None,
       mm_clicks = None, mm_conversions = None, mm_new_customers = None,
       mm_returning_customers = None, mm_created_at = 100, mm_updated_at = 100\<rparr>"
  define m0 :: "string MetricInput" where
    "m0 = \<lparr>mi_date = ''2025-01-15'', mi_channel = ''Google Ads'', mi_spend = 21 / 2,
       mi_revenue = Some 0, mi_impressions = Some 1000, mi_clicks = None, mi_conversions = None,
       mi_new_customers = None, mi_returning_customers = None\<rparr>"
  define tbl' where "tbl' = snd (bulkInsert pg [r0] ''acct'' [m0])"
  have k0: "uniqueKey r0 = (''acct'', ''2025-01-15'', ''Google Ads'')"
    by (simp add: uniqueKey_def r0_def)
  have mk: "metricKey pg ''acct'' m0 = Some (''acct'', ''2025-01-15'', ''Google Ads'')"
    by (simp add: metricKey_def pg_def m0_def)
  have d: "distinct (map uniqueKey [r0])" by simp
  have ok: "fst (bulkInsert pg [r0] ''acct'' [m0]) = Inr ()"
    unfolding pg_def r0_def m0_def by (simp add: bulkInsert_example_conflict)
  have g: "metricsUnder pg ''acct'' [m0] (uniqueKey r0) = [m0]"
    by (simp add: mk k0)
  note t = bulkInsert_preserves_unique_key [OF d, of pg "''acct''" "[m0]",
      THEN conjunct2, rule_format, OF ok, folded tbl'_def]
  have G: "{k. metricsUnder pg ''acct'' [m0] k \<noteq> []} = {uniqueKey r0}"
    by (auto simp: mk k0)
  from t have "length tbl' = length [r0] + card ({k. metricsUnder pg ''acct'' [m0] k \<noteq> []} - set (map uniqueKey [r0]))"
    by (rule conjunct2 [THEN conjunct1])
  then have len: "length tbl' = 1" unfolding G by simp
  from t have "\<forall>j < length [r0].
           (metricsUnder pg ''acct'' [m0] (uniqueKey ([r0] ! j)) = [] \<longrightarrow> tbl' ! j = [r0] ! j) \<and>
           (metricsUnder pg ''acct'' [m0] (uniqueKey ([r0] ! j)) \<noteq> [] \<longrightarrow>
              (\<exists>n new. proposedRow pg n ''acct''
                   (last (metricsUnder pg ''acct'' [m0] (uniqueKey ([r0] ! j)))) = Inr new \<and>
                 tbl' ! j = doUpdate pg new ([r0] ! j)))"
    by (rule conjunct2 [THEN conjunct2])
  from this [rule_format, of 0] g
  obtain n new where p: "proposedRow pg n ''acct'' m0 = Inr new"
    and u: "tbl' ! 0 = doUpdate pg new r0" by auto
  from p have "new = \<lparr>mm_id = ''id-2'', mm_account_id = ''acct'', mm_date = ''2025-01-15'',
          mm_channel = ''Google Ads'', mm_spend = 21 / 2, mm_revenue = None,
          mm_impressions = Some 1000, mm_clicks = None, mm_conversions = None,
          mm_new_customers = None, mm_returning_customers = None, mm_created_at = 200,
          mm_updated_at = 200\<rparr>"
    unfolding pg_def m0_def by (simp add: proposedRow_example_at)
  with u have row: "tbl' ! 0 = \<lparr>mm_id = ''id-1'', mm_account_id = ''acct'', mm_date = ''2025-01-15'',
       mm_channel = ''Google Ads'', mm_spend = 21 / 2, mm_revenue = None,
       mm_impressions = Some 1000, mm_clicks = None, mm_conversions = None,
       mm_new_customers = None, mm_returning_customers = None, mm_created_at = 100,
       mm_updated_at = 200\<rparr>"
    by (simp add: doUpdate_def r0_def pg_def)
  have ne: "metricsUnder pg ''acct'' [m0] (''acct'', ''2025-01-15'', ''Google Ads'') \<noteq> []"
    using g k0 by simp
  from d ok ne row len show ?thesis
    unfolding tbl'_def pg_def r0_def m0_def by (intro conjI)
qed

text \<open>
  Claim C8. When \<open>bulkInsert\<close> fails, the table afterwards is the table before the call.
  When it succeeds, every row given is in the table afterwards, under its key. A row that the
  statement cannot accept (whatever its position) makes the call fail, so nothing of the call
  is kept then.
\<close>

theorem bulkInsert_all_or_nothing:
  "(fst (bulkInsert pg tbl account metrics) = Inl e \<longrightarrow>
      snd (bulkInsert pg tbl account metrics) = tbl) \<and>
   (fst (bulkInsert pg tbl account metrics) = Inr () \<longrightarrow>
      (\<forall>m \<in> set metrics. \<exists>d. toDate pg (mi_date m) = Some d \<and>
         (account, d, mi_channel m) \<in> set (map uniqueKey (snd (bulkInsert pg tbl account metrics))))) \<and>
   ((\<exists>m \<in> set metrics. \<forall>j. \<exists>err. proposedRow pg j account m = Inl err) \<longrightarrow>
      (\<exists>err. fst (bulkInsert pg tbl account metrics) = Inl err) \<and>
      snd (bulkInsert pg tbl account metrics) = tbl)"
proof (intro conjI impI)
  assume "fst (bulkInsert pg tbl account metrics) = Inl e"
  then show "snd (bulkInsert pg tbl account metrics) = tbl"
    by (rule bulkInsert_failure)
next
  assume "fst (bulkInsert pg tbl account metrics) = Inr ()"
  then show "\<forall>m \<in> set metrics. \<exists>d. toDate pg (mi_date m) = Some d \<and>
         (account, d, mi_channel m) \<in> set (map uniqueKey (snd (bulkInsert pg tbl account metrics)))"
    using bulkInsert_success [of pg tbl account metrics] by blast
next
  assume bad: "\<exists>m \<in> set metrics. \<forall>j. \<exists>err. proposedRow pg j account m = Inl err"
  show f: "\<exists>err. fst (bulkInsert pg tbl account metrics) = Inl err"
  proof (cases "fst (bulkInsert pg tbl account metrics)")
    case (Inl err)
    then show ?thesis by blast
  next
    case (Inr u)
    then have "\<forall>m \<in> set metrics. \<exists>j new. proposedRow pg j account m = Inr new"
      using bulkInsert_success_proposed [of pg tbl account metrics] by simp
    moreover from bad obtain m where m: "m \<in> set metrics"
      "\<forall>j. \<exists>err. proposedRow pg j account m = Inl err" by blast
    ultimately obtain j new where "proposedRow pg j account m = Inr new" by blast
    moreover from m(2) obtain err where "proposedRow pg j account m = Inl err" by blast
    ultimately show ?thesis by simp
  qed
  then show "snd (bulkInsert pg tbl account metrics) = tbl"
    using bulkInsert_failure [of pg tbl account metrics] by blast
qed

text \<open>
  The theorem at an empty table and two rows, the second with a negative spend: the first row
  was written inside the transaction, the second is refused, and the table stays empty.
\<close>

theorem bulkInsert_all_or_nothing_witness:
  "fst (bulkInsert \<lparr>toDate = Some, accounts = [''acct''], pgNow = 200, gen_random_uuid = (\<lambda>i. ''id-2'')\<rparr>
     [] ''acct''
     [\<lparr>mi_date = ''2025-01-15'', mi_channel = ''Google Ads'', mi_spend = 21 / 2,
       mi_revenue = Some 0, mi_impressions = Some 1000, mi_clicks = None, mi_conversions = None,
       mi_new_customers = None, mi_returning_customers = None\<rparr>,
      \<lparr>mi_date = ''2025-01-16'', mi_channel = ''Google Ads'', mi_spend = - 1,
       mi_revenue = None, mi_impressions = None, mi_clicks = None, mi_conversions = None,
       mi_new_customers = None, mi_returning_customers = None\<rparr>])
     = Inl (CheckViolation ''spend'') \<and>
   snd (bulkInsert \<lparr>toDate = Some, accounts = [''acct''], pgNow = 200, gen_random_uuid = (\<lambda>i. ''id-2'')\<rparr>
     [] ''acct''
     [\<lparr>mi_date = ''2025-01-15'', mi_channel = ''Google Ads'', mi_spend = 21 / 2,
       mi_revenue = Some 0, mi_impressions = Some 1000, mi_clicks = None, mi_conversions = None,
       mi_new_customers = None, mi_returning_customers = None\<rparr>,
      \<lparr>mi_date = ''2025-01-16'', mi_channel = ''Google Ads'', mi_spend = - 1,
       mi_revenue = None, mi_impressions = None, mi_clicks = None, mi_conversions = None,
       mi_new_customers = None, mi_returning_customers = None\<rparr>])
     = ([] :: string MarketingMetric list)"
  using bulkInsert_all_or_nothing
    [where pg = "\<lparr>toDate = Some, accounts = [''acct''], pgNow = 200,
                  gen_random_uuid = (\<lambda>i. ''id-2'')\<rparr>" and
      account = "''acct''" and tbl = "[] :: string MarketingMetric list" and
      e = "CheckViolation ''spend''" and
      metrics = "[\<lparr>mi_date = ''2025-01-15'', mi_channel = ''Google Ads'', mi_spend = 21 / 2,
       mi_revenue = Some 0, mi_impressions = Some 1000, mi_clicks = None, mi_conversions = None,
       mi_new_customers = None, mi_returning_customers = None\<rparr>,
      \<lparr>mi_date = ''2025-01-16'', mi_channel = ''Google Ads'', mi_spend = - 1,
       mi_revenue = None, mi_impressions = None, mi_clicks = None, mi_conversions = None,
       mi_new_customers = None, mi_returning_customers = None\<rparr>]"]
    bulkInsert_example_rollback
  by simp

subsection \<open>Channel normalization\<close>























text \<open>
  For the two all-lower-case member names of \<open>Object.prototype\<close> the function returns no
  string.
\<close>

lemma normalizeChannel_example_constructor:
  "normalizeChannel noAccountMapping ''acct'' ''Constructor''
     = Resolved (PrototypeMember ''constructor'')"
  by code_simp
















subsection \<open>Date range and CSV upload\<close>

lemma validateDateRange_valid_iff:
  assumes "0 \<le> maxDaysBack" "snd clock \<le> maxTimeValue"
  shows "validateDateRange dateParse clock date maxDaysBack = Valid \<longleftrightarrow>
     (\<exists>t. newDate dateParse date = Some t \<and> t \<le> fst clock \<and> snd clock - t \<le> maxDaysBack * msPerDay)"
proof (cases "newDate dateParse date")
  case None
  then show ?thesis by (simp add: validateDateRange_def)
next
  case (Some t)
  then have t: "\<bar>t\<bar> \<le> maxTimeValue"
    by (auto simp: newDate_def timeClip_def split: option.splits if_splits)
  have d: "0 \<le> maxDaysBack * msPerDay" using assms(1) by (simp add: msPerDay_def)
  show ?thesis
  proof (cases "setDateBack (snd clock) maxDaysBack")
    case None
    then have "\<bar>snd clock - maxDaysBack * msPerDay\<bar> > maxTimeValue"
      by (simp add: setDateBack_def timeClip_def split: if_splits)
    with assms(2) d have "snd clock - maxDaysBack * msPerDay < - maxTimeValue" by linarith
    with t have "snd clock - t \<le> maxDaysBack * msPerDay" by linarith
    with Some None show ?thesis by (auto simp: validateDateRange_def Let_def)
  next
    case (Some m)
    then have "m = snd clock - maxDaysBack * msPerDay"
      by (simp add: setDateBack_def timeClip_def split: if_splits)
    with \<open>newDate dateParse date = Some t\<close> Some show ?thesis
      by (auto simp: validateDateRange_def Let_def)
  qed
qed

lemma uploadLoop_all:
  "uploadLoop step i rs (ms, es, ds) = (ms', es', ds') \<Longrightarrow>
     length ms' + length es' = length ms + length es + length rs \<and>
     set ms \<subseteq> set ms' \<and> set es \<subseteq> set es' \<and>
     (\<forall>j < length rs. (\<forall>e. step (i + j) (rs ! j) = Inl e \<longrightarrow> e \<in> set es') \<and>
                       (\<forall>m. step (i + j) (rs ! j) = Inr m \<longrightarrow> m \<in> set ms'))"
proof (induction rs arbitrary: i ms es ds)
  case Nil
  then show ?case by simp
next
  case (Cons r rs)
  show ?case
  proof (cases "step i r")
    case (Inl e)
    with Cons.prems have l: "uploadLoop step (Suc i) rs (ms, es @ [e], ds) = (ms', es', ds')" by simp
    from Cons.IH [OF l] have ih: "length ms' + length es' = length ms + length (es @ [e]) + length rs"
      "set ms \<subseteq> set ms'" "set (es @ [e]) \<subseteq> set es'"
      "\<forall>j < length rs. (\<forall>e. step (Suc i + j) (rs ! j) = Inl e \<longrightarrow> e \<in> set es') \<and>
                       (\<forall>m. step (Suc i + j) (rs ! j) = Inr m \<longrightarrow> m \<in> set ms')" by blast+
    have "\<forall>j < length (r # rs). (\<forall>e. step (i + j) ((r # rs) ! j) = Inl e \<longrightarrow> e \<in> set es') \<and>
                       (\<forall>m. step (i + j) ((r # rs) ! j) = Inr m \<longrightarrow> m \<in> set ms')"
    proof (intro allI impI)
      fix j assume "j < length (r # rs)"
      show "(\<forall>e. step (i + j) ((r # rs) ! j) = Inl e \<longrightarrow> e \<in> set es') \<and>
                       (\<forall>m. step (i + j) ((r # rs) ! j) = Inr m \<longrightarrow> m \<in> set ms')"
      proof (cases j)
        case 0
        with Inl ih(3) show ?thesis by auto
      next
        case (Suc k)
        with \<open>j < length (r # rs)\<close> ih(4) show ?thesis by auto
      qed
    qed
    with ih show ?thesis by auto
  next
    case (Inr m)
    with Cons.prems have l: "uploadLoop step (Suc i) rs (ms @ [m], es, ds @ [mi_date m]) = (ms', es', ds')" by simp
    from Cons.IH [OF l] have ih: "length ms' + length es' = length (ms @ [m]) + length es + length rs"
      "set (ms @ [m]) \<subseteq> set ms'" "set es \<subseteq> set es'"
      "\<forall>j < length rs. (\<forall>e. step (Suc i + j) (rs ! j) = Inl e \<longrightarrow> e \<in> set es') \<and>
                       (\<forall>m. step (Suc i + j) (rs ! j) = Inr m \<longrightarrow> m \<in> set ms')" by blast+
    have "\<forall>j < length (r # rs). (\<forall>e. step (i + j) ((r # rs) ! j) = Inl e \<longrightarrow> e \<in> set es') \<and>
                       (\<forall>m. step (i + j) ((r # rs) ! j) = Inr m \<longrightarrow> m \<in> set ms')"
    proof (intro allI impI)
      fix j assume "j < length (r # rs)"
      show "(\<forall>e. step (i + j) ((r # rs) ! j) = Inl e \<longrightarrow> e \<in> set es') \<and>
                       (\<forall>m. step (i + j) ((r # rs) ! j) = Inr m \<longrightarrow> m \<in> set ms')"
      proof (cases j)
        case 0
        with Inr ih(2) show ?thesis by auto
      next
        case (Suc k)
        with \<open>j < length (r # rs)\<close> ih(4) show ?thesis by auto
      qed
    qed
    with ih show ?thesis by auto
  qed
qed


lemma validateUpload_accepts:
  assumes "uploadLoop (uploadRow schema db dateParse clocks account reqTier) 0 records ([], [], [])
             = (metrics, errors, dates)"
    and "metrics \<noteq> []"
  shows "validateUpload schema db dateParse clocks existingDays account reqTier records
           = Accepted metrics
               (errors @ minimumDataDaysWarning account (length metrics) existingDays dates)"
  using assms by (simp add: validateUpload_def Let_def)

lemma upload_example:
  "validateDateRange
     (\<lambda>s. if s = ''2025-01-15'' then Some 1736899200000
          else if s = ''2030-01-01'' then Some 1893456000000 else None)
     (1750000000000, 1750000000000) ''2030-01-01'' 730 = Invalid ''Date cannot be in the future'' \<and>
   validateDateRange
     (\<lambda>s. if s = ''2025-01-15'' then Some 1736899200000
          else if s = ''2030-01-01'' then Some 1893456000000 else None)
     (1750000000000, 1750000000000) ''2025-01-15'' 730 = Valid \<and>
   normalizeChannel noAccountMapping ''acct'' ''fb'' = Resolved (Name ''Facebook Ads'') \<and>
   uploadRow Inr noAccountMapping
     (\<lambda>s. if s = ''2025-01-15'' then Some 1736899200000
          else if s = ''2030-01-01'' then Some 1893456000000 else None)
     (\<lambda>i. (1750000000000, 1750000000000)) ''acct'' (Some Free) 1
     \<lparr>mi_date = ''2025-01-15'', mi_channel = ''fb'', mi_spend = 10, mi_revenue = None,
      mi_impressions = None, mi_clicks = None, mi_conversions = None, mi_new_customers = None,
      mi_returning_customers = None\<rparr>
   = Inr \<lparr>mi_date = ''2025-01-15'', mi_channel = Name ''Facebook Ads'', mi_spend = 10,
          mi_revenue = None, mi_impressions = None, mi_clicks = None, mi_conversions = None,
          mi_new_customers = None, mi_returning_customers = None\<rparr> \<and>
   rowMessage 0 ''Date cannot be in the future'' = ''Row 2: Date cannot be in the future''"
  by code_simp

text \<open>
  Claim C10. For a history bound \<open>maxDaysBack \<ge> 0\<close> and a clock within the range of \<open>Date\<close>,
  \<open>validateDateRange\<close> answers valid exactly when the string parses to a date \<open>t\<close> with \<open>t\<close> not
  after the current instant and the current instant at most \<open>maxDaysBack\<close> days after \<open>t\<close>; the
  default bound is 730. At upload, a record at index \<open>k\<close> that passes the schema and the
  channel normalization and fails the date check leaves the message \<open>Row k+2: ...\<close> among
  the errors and no metric, every record is accounted for by a metric or a message, every
  record the loop body accepts is among the metrics, and when there is such a record the
  upload is accepted with that message among its errors.
\<close>

theorem validateDateRange_valid_iff_and_upload_skips_row:
  assumes "0 \<le> maxDaysBack" and "snd clock \<le> maxTimeValue"
  shows
    "(validateDateRange dateParse clock date maxDaysBack = Valid \<longleftrightarrow>
        (\<exists>t. newDate dateParse date = Some t \<and> t \<le> fst clock \<and>
             snd clock - t \<le> maxDaysBack * msPerDay)) \<and>
     validateDateRangeDefault dateParse clock date = validateDateRange dateParse clock date 730 \<and>
     (\<forall>k row ch err.
        k < length records \<and> schema (records ! k) = Inr row \<and>
        normalizeChannel db account (mi_channel row) = Resolved ch \<and>
        validateDateRange dateParse (clocks k) (mi_date row) (if reqTier = Some Free then 730 else 3650)
          = Invalid err \<longrightarrow>
        (\<exists>metrics errors dates.
           uploadLoop (uploadRow schema db dateParse clocks account reqTier) 0 records ([], [], [])
             = (metrics, errors, dates) \<and>
           rowMessage k err \<in> set errors \<and>
           length metrics + length errors = length records \<and>
           (\<forall>j < length records. \<forall>m.
              uploadRow schema db dateParse clocks account reqTier j (records ! j) = Inr m \<longrightarrow>
              m \<in> set metrics) \<and>
           (metrics \<noteq> [] \<longrightarrow>
              (\<exists>es. validateUpload schema db dateParse clocks existingDays account reqTier records
                      = Accepted metrics es \<and>
                    rowMessage k err \<in> set es))))"
proof (intro conjI allI impI)
  show "validateDateRange dateParse clock date maxDaysBack = Valid \<longleftrightarrow>
        (\<exists>t. newDate dateParse date = Some t \<and> t \<le> fst clock \<and>
             snd clock - t \<le> maxDaysBack * msPerDay)"
    using assms by (rule validateDateRange_valid_iff)
next
  show "validateDateRangeDefault dateParse clock date = validateDateRange dateParse clock date 730"
    by (simp add: validateDateRangeDefault_def)
next
  fix k row ch err
  assume a: "k < length records \<and> schema (records ! k) = Inr row \<and>
        normalizeChannel db account (mi_channel row) = Resolved ch \<and>
        validateDateRange dateParse (clocks k) (mi_date row) (if reqTier = Some Free then 730 else 3650)
          = Invalid err"
  let ?step = "uploadRow schema db dateParse clocks account reqTier"
  obtain metrics errors dates where l: "uploadLoop ?step 0 records ([], [], []) = (metrics, errors, dates)"
    by (cases "uploadLoop ?step 0 records ([], [], [])") auto
  from a have s: "?step k (records ! k) = Inl (rowMessage k err)"
    by (simp add: uploadRow_def Let_def)
  from uploadLoop_all [OF l] have f: "length metrics + length errors = length records"
    "\<forall>j < length records. (\<forall>e. ?step j (records ! j) = Inl e \<longrightarrow> e \<in> set errors) \<and>
                       (\<forall>m. ?step j (records ! j) = Inr m \<longrightarrow> m \<in> set metrics)"
    by simp_all
  from f(2) a s have e: "rowMessage k err \<in> set errors" by blast
  have v: "metrics \<noteq> [] \<longrightarrow>
      (\<exists>es. validateUpload schema db dateParse clocks existingDays account reqTier records
                      = Accepted metrics es \<and> rowMessage k err \<in> set es)"
    using validateUpload_accepts [OF l, of existingDays] e by auto
  from l e f v
  show "\<exists>metrics errors dates.
           uploadLoop ?step 0 records ([], [], []) = (metrics, errors, dates) \<and>
           rowMessage k err \<in> set errors \<and>
           length metrics + length errors = length records \<and>
           (\<forall>j < length records. \<forall>m. ?step j (records ! j) = Inr m \<longrightarrow> m \<in> set metrics) \<and>
           (metrics \<noteq> [] \<longrightarrow>
              (\<exists>es. validateUpload schema db dateParse clocks existingDays account reqTier records
                      = Accepted metrics es \<and>
                    rowMessage k err \<in> set es))"
    by blast
qed

text \<open>
  The theorem at a free-tier upload of two records read on 2025-06-15: the first, dated
  2030-01-01, is skipped with the message \<open>Row 2: Date cannot be in the future\<close>; the second,
  dated 2025-01-15, is accepted, and so is the upload.
\<close>

theorem validateDateRange_valid_iff_and_upload_skips_row_witness:
  "validateDateRange
     (\<lambda>s. if s = ''2025-01-15'' then Some 1736899200000
          else if s = ''2030-01-01'' then Some 1893456000000 else None)
     (1750000000000, 1750000000000) ''2025-01-15'' 730 = Valid \<and>
   (\<exists>ms es.
      validateUpload Inr noAccountMapping
        (\<lambda>s. if s = ''2025-01-15'' then Some 1736899200000
             else if s = ''2030-01-01'' then Some 1893456000000 else None)
        (\<lambda>i. (1750000000000, 1750000000000)) 0 ''acct'' (Some Free)
        [\<lparr>mi_date = ''2030-01-01'', mi_channel = ''fb'', mi_spend = 10, mi_revenue = None,
          mi_impressions = None, mi_clicks = None, mi_conversions = None,
          mi_new_customers = None, mi_returning_customers = None\<rparr>,
         \<lparr>mi_date = ''2025-01-15'', mi_channel = ''fb'', mi_spend = 10, mi_revenue = None,
          mi_impressions = None, mi_clicks = None, mi_conversions = None,
          mi_new_customers = None, mi_returning_customers = None\<rparr>]
        = Accepted ms es \<and>
      \<lparr>mi_date = ''2025-01-15'', mi_channel = Name ''Facebook Ads'', mi_spend = 10,
       mi_revenue = None, mi_impressions = None, mi_clicks = None, mi_conversions = None,
       mi_new_customers = None, mi_returning_customers = None\<rparr> \<in> set ms \<and>
      ''Row 2: Date cannot be in the future'' \<in> set es)"
proof -
  let ?dp = "\<lambda>s. if s = ''2025-01-15'' then Some (1736899200000 :: int)
                  else if s = ''2030-01-01'' then Some 1893456000000 else None"
  let ?clocks = "\<lambda>i :: nat. (1750000000000 :: int, 1750000000000 :: int)"
  let ?r1 = "\<lparr>mi_date = ''2030-01-01'', mi_channel = ''fb'', mi_spend = 10, mi_revenue = None,
          mi_impressions = None, mi_clicks = None, mi_conversions = None,
          mi_new_customers = None, mi_returning_customers = None\<rparr>"
  let ?r2 = "\<lparr>mi_date = ''2025-01-15'', mi_channel = ''fb'', mi_spend = 10, mi_revenue = None,
          mi_impressions = None, mi_clicks = None, mi_conversions = None,
          mi_new_customers = None, mi_returning_customers = None\<rparr>"
  let ?m2 = "\<lparr>mi_date = ''2025-01-15'', mi_channel = Name ''Facebook Ads'', mi_spend = 10,
       mi_revenue = None, mi_impressions = None, mi_clicks = None, mi_conversions = None,
       mi_new_customers = None, mi_returning_customers = None\<rparr>"
  let ?step = "uploadRow Inr noAccountMapping ?dp ?clocks ''acct'' (Some Free)"
  have b: "(0 :: int) \<le> 730" "snd (1750000000000 :: int, 1750000000000 :: int) \<le> maxTimeValue"
    by (simp_all add: maxTimeValue_def)
  note t = validateDateRange_valid_iff_and_upload_skips_row [OF b,
      where dateParse = ?dp and date = "''2025-01-15''" and records = "[?r1, ?r2]" and schema = Inr
        and db = noAccountMapping and account = "''acct''" and clocks = ?clocks
        and reqTier = "Some Free" and existingDays = 0]
  have h: "0 < length [?r1, ?r2] \<and> (Inr ([?r1, ?r2] ! 0) :: string + string MetricInput) = Inr ?r1 \<and>
        normalizeChannel noAccountMapping ''acct'' (mi_channel ?r1) = Resolved (Name ''Facebook Ads'') \<and>
        validateDateRange ?dp (?clocks 0) (mi_date ?r1) (if Some Free = Some Free then 730 else 3650)
          = Invalid ''Date cannot be in the future''"
    using upload_example by simp
  note p = t [THEN conjunct2, THEN conjunct2, rule_format, OF h]
  from p obtain metrics errors dates where r:
    "rowMessage 0 ''Date cannot be in the future'' \<in> set errors \<and>
     length metrics + length errors = length [?r1, ?r2] \<and>
     (\<forall>j < length [?r1, ?r2]. \<forall>m. ?step j ([?r1, ?r2] ! j) = Inr m \<longrightarrow> m \<in> set metrics) \<and>
     (metrics \<noteq> [] \<longrightarrow>
       (\<exists>es. validateUpload Inr noAccountMapping ?dp ?clocks 0 ''acct'' (Some Free) [?r1, ?r2]
               = Accepted metrics es \<and>
             rowMessage 0 ''Date cannot be in the future'' \<in> set es))"
    by (elim exE conjE) (intro that conjI; assumption)
  have s2: "?step 1 ([?r1, ?r2] ! 1) = Inr ?m2" using upload_example by simp
  have l1: "1 < length [?r1, ?r2]" by simp
  from r have "\<forall>j < length [?r1, ?r2]. \<forall>m. ?step j ([?r1, ?r2] ! j) = Inr m \<longrightarrow> m \<in> set metrics"
    by (elim conjE)
  from this [rule_format, OF l1 s2] have m: "?m2 \<in> set metrics" .
  then have ne: "metrics \<noteq> []" by (cases metrics) simp_all
  from r have "metrics \<noteq> [] \<longrightarrow>
       (\<exists>es. validateUpload Inr noAccountMapping ?dp ?clocks 0 ''acct'' (Some Free) [?r1, ?r2]
               = Accepted metrics es \<and>
             rowMessage 0 ''Date cannot be in the future'' \<in> set es)"
    by (elim conjE)
  from this [rule_format, OF ne] obtain es where es:
    "validateUpload Inr noAccountMapping ?dp ?clocks 0 ''acct'' (Some Free) [?r1, ?r2]
       = Accepted metrics es"
    "rowMessage 0 ''Date cannot be in the future'' \<in> set es"
    by (elim exE conjE)
  have msg: "rowMessage 0 ''Date cannot be in the future'' = ''Row 2: Date cannot be in the future''"
    using upload_example by (elim conjE)
  have v: "validateDateRange ?dp (1750000000000, 1750000000000) ''2025-01-15'' 730 = Valid"
    using upload_example by (elim conjE)
  show ?thesis
  proof (intro conjI exI)
    show "validateDateRange ?dp (1750000000000, 1750000000000) ''2025-01-15'' 730 = Valid"
      by (rule v)
    show "validateUpload Inr noAccountMapping ?dp ?clocks 0 ''acct'' (Some Free) [?r1, ?r2]
       = Accepted metrics es" by (rule es(1))
    show "?m2 \<in> set metrics" by (rule m)
    show "''Row 2: Date cannot be in the future'' \<in> set es"
      using es(2) unfolding msg .
  qed
qed

end
